theory Spec2Isabelle
  imports Main
begin

text \<open>
  A shallow embedding of \<^verbatim>\<open>src/index.js\<close>: an Express application with one route,
  \<^verbatim>\<open>POST /compress\<close>, which takes one uploaded file, picks a compression strategy from
  the extension of the original filename, writes the compressed artifact next to the
  upload, sends it back as a download and removes both files.

  The handler's own logic (classification, artifact naming, the order of the storage
  operations, the responses, the cleanup on every exit) is modelled statement by
  statement. What the handler calls but does not contain is modelled as follows.
  \<^item> \<^verbatim>\<open>path.extname\<close>, \<^verbatim>\<open>path.basename\<close> and \<^verbatim>\<open>path.join\<close> are Node's POSIX
    implementations. The first two are transcribed from Node's loops; \<^verbatim>\<open>path.join\<close> is
    given by its segment semantics.
  \<^item> Strings are lists of 8-bit characters. \<^verbatim>\<open>toLowerCase\<close> maps A-Z to a-z and leaves
    every other character alone (JavaScript's Unicode case mapping of non-ASCII
    characters is outside the model).
  \<^item> The disk is a map from path names to contents. Whether \<^verbatim>\<open>fs.unlink\<close>,
    \<^verbatim>\<open>fs.readFile\<close> or \<^verbatim>\<open>fs.writeFile\<close> fail on a file, what gzip, sharp, pdf-lib and
    archiver produce, and how the transfer to the client ends, is chosen by an
    environment \<open>env\<close> over which every general theorem quantifies.
  \<^item> An awaited promise settles: it is fulfilled or rejected. A stream error for which the
    handler registers no listener, and a promise that never settles, are not modelled.
\<close>

section \<open>Strings and paths (Node.js standard library, POSIX flavour)\<close>

type_synonym pathname = string
type_synonym bytes = string

definition lower_char :: "char \<Rightarrow> char" where
  "lower_char c =
     (case map_of (zip ''ABCDEFGHIJKLMNOPQRSTUVWXYZ'' ''abcdefghijklmnopqrstuvwxyz'') c of
        Some d \<Rightarrow> d
      | None \<Rightarrow> c)"

definition toLowerCase :: "string \<Rightarrow> string" where
  "toLowerCase s = map lower_char s"

definition startsWith :: "string \<Rightarrow> string \<Rightarrow> bool" where
  "startsWith s p = (take (length p) s = p)"

text \<open>
  \<^verbatim>\<open>String.prototype.slice(start, end)\<close>: a negative index counts from the end, and both
  indices are clamped to the string.
\<close>

definition js_slice :: "string \<Rightarrow> int \<Rightarrow> int \<Rightarrow> string" where
  "js_slice s a b =
     (let n = int (length s);
          from = (if a < 0 then max (n + a) 0 else min a n);
          to = (if b < 0 then max (n + b) 0 else min b n)
      in take (nat (to - from)) (drop (nat from) s))"

text \<open>
  \<^verbatim>\<open>path.extname\<close>. Node scans the path from its last character to its first, keeping five
  variables; \<open>extname_loop p n s\<close> runs the scan over the indices \<open>n - 1\<close> down to \<open>0\<close>, and
  the \<^verbatim>\<open>break\<close> at a separator that ends the last path component is the branch that
  does not recurse. An index is \<open>-1\<close> while it is unset, as in Node.
\<close>

record ext_scan =
  startDot :: int
  startPart :: int
  end_ix :: int
  matchedSlash :: bool
  preDotState :: int

fun extname_loop :: "string \<Rightarrow> nat \<Rightarrow> ext_scan \<Rightarrow> ext_scan" where
  "extname_loop p 0 s = s"
| "extname_loop p (Suc i) s =
     (if p ! i = CHR ''/'' then
        (if \<not> matchedSlash s then s\<lparr>startPart := int i + 1\<rparr>
         else extname_loop p i s)
      else
        (let s1 = (if end_ix s = -1 then s\<lparr>end_ix := int i + 1, matchedSlash := False\<rparr> else s);
             s2 = (if p ! i = CHR ''.'' then
                     (if startDot s1 = -1 then s1\<lparr>startDot := int i\<rparr>
                      else if preDotState s1 \<noteq> 1 then s1\<lparr>preDotState := 1\<rparr>
                      else s1)
                   else if startDot s1 \<noteq> -1 then s1\<lparr>preDotState := -1\<rparr>
                   else s1)
         in extname_loop p i s2))"

definition extname :: "string \<Rightarrow> string" where
  "extname p =
     (let s = extname_loop p (length p)
                \<lparr>startDot = -1, startPart = 0, end_ix = -1, matchedSlash = True, preDotState = 0\<rparr>
      in if startDot s = -1 \<or> end_ix s = -1 \<or> preDotState s = 0 \<or>
            (preDotState s = 1 \<and> startDot s = end_ix s - 1 \<and> startDot s = startPart s + 1)
         then ''''
         else js_slice p (startDot s) (end_ix s))"

text \<open>
  \<^verbatim>\<open>path.basename(path, suffix)\<close>. With a non-empty suffix that is not longer than the path,
  Node scans from the end and compares the suffix character by character, case
  included; without one it only looks for the last path component.
\<close>

record base_scan =
  bstart :: int
  bend :: int
  bmatchedSlash :: bool
  extIdx :: int
  firstNonSlashEnd :: int

fun basename_suffix_loop :: "string \<Rightarrow> string \<Rightarrow> nat \<Rightarrow> base_scan \<Rightarrow> base_scan" where
  "basename_suffix_loop p suffix 0 s = s"
| "basename_suffix_loop p suffix (Suc i) s =
     (if p ! i = CHR ''/'' then
        (if \<not> bmatchedSlash s then s\<lparr>bstart := int i + 1\<rparr>
         else basename_suffix_loop p suffix i s)
      else
        (let s1 = (if firstNonSlashEnd s = -1
                   then s\<lparr>bmatchedSlash := False, firstNonSlashEnd := int i + 1\<rparr> else s);
             s2 = (if 0 \<le> extIdx s1 then
                     (if p ! i = suffix ! nat (extIdx s1) then
                        (if extIdx s1 - 1 = -1 then s1\<lparr>bend := int i, extIdx := extIdx s1 - 1\<rparr>
                         else s1\<lparr>extIdx := extIdx s1 - 1\<rparr>)
                      else s1\<lparr>bend := firstNonSlashEnd s1, extIdx := -1\<rparr>)
                   else s1)
         in basename_suffix_loop p suffix i s2))"

fun basename_loop :: "string \<Rightarrow> nat \<Rightarrow> base_scan \<Rightarrow> base_scan" where
  "basename_loop p 0 s = s"
| "basename_loop p (Suc i) s =
     (if p ! i = CHR ''/'' then
        (if \<not> bmatchedSlash s then s\<lparr>bstart := int i + 1\<rparr>
         else basename_loop p i s)
      else if bend s = -1 then basename_loop p i (s\<lparr>bend := int i + 1, bmatchedSlash := False\<rparr>)
      else basename_loop p i s)"

definition basename :: "string \<Rightarrow> string \<Rightarrow> string" where
  "basename p suffix =
     (let s0 = \<lparr>bstart = 0, bend = -1, bmatchedSlash = True,
                 extIdx = int (length suffix) - 1, firstNonSlashEnd = -1\<rparr>
      in if 0 < length suffix \<and> length suffix \<le> length p then
           (if suffix = p then ''''
            else
              (let s = basename_suffix_loop p suffix (length p) s0;
                   e = (if bstart s = bend s then firstNonSlashEnd s
                        else if bend s = -1 then int (length p)
                        else bend s)
               in js_slice p (bstart s) e))
         else
           (let s = basename_loop p (length p) s0
            in if bend s = -1 then '''' else js_slice p (bstart s) (bend s)))"


text \<open>
  \<^verbatim>\<open>path.join\<close>: the non-empty arguments are joined with \<^verbatim>\<open>/\<close> and the result is normalised.
  Normalisation drops empty and \<^verbatim>\<open>.\<close> segments, lets a \<^verbatim>\<open>..\<close> segment remove the segment
  before it (above the root of an absolute path it is dropped, at the start of a relative
  path it is kept), and keeps a leading and a trailing separator.
\<close>

fun split_sep :: "string \<Rightarrow> string list" where
  "split_sep [] = [[]]"
| "split_sep (c # cs) =
     (if c = CHR ''/'' then [] # split_sep cs
      else (case split_sep cs of [] \<Rightarrow> [[c]] | w # ws \<Rightarrow> (c # w) # ws))"

fun join_sep :: "string list \<Rightarrow> string" where
  "join_sep [] = []"
| "join_sep [w] = w"
| "join_sep (w # ws) = w @ ''/'' @ join_sep ws"

fun normalize_segments :: "bool \<Rightarrow> string list \<Rightarrow> string list \<Rightarrow> string list" where
  "normalize_segments allowAboveRoot [] res = res"
| "normalize_segments allowAboveRoot (seg # rest) res =
     (if seg = [] \<or> seg = ''.'' then normalize_segments allowAboveRoot rest res
      else if seg = ''..'' then
        (if res \<noteq> [] \<and> last res \<noteq> ''..''
         then normalize_segments allowAboveRoot rest (butlast res)
         else if allowAboveRoot then normalize_segments allowAboveRoot rest (res @ [''..''])
         else normalize_segments allowAboveRoot rest res)
      else normalize_segments allowAboveRoot rest (res @ [seg]))"

definition normalize :: "string \<Rightarrow> string" where
  "normalize p =
     (if p = [] then ''.''
      else
        (let isAbsolute = (hd p = CHR ''/'');
             trailingSeparator = (last p = CHR ''/'');
             r = join_sep (normalize_segments (\<not> isAbsolute) (split_sep p) [])
         in if r = [] then (if isAbsolute then ''/'' else if trailingSeparator then ''./'' else ''.'')
            else (if isAbsolute then ''/'' else []) @ r @ (if trailingSeparator then ''/'' else [])))"

definition path_join :: "string list \<Rightarrow> string" where
  "path_join args =
     (let joined = join_sep (filter (\<lambda>a. a \<noteq> []) args)
      in if joined = [] then ''.'' else normalize joined)"


section \<open>The Storage Area and the external capabilities\<close>

type_synonym filesystem = "pathname \<rightharpoonup> bytes"

text \<open>A JavaScript \<^verbatim>\<open>Error\<close>: its \<^verbatim>\<open>code\<close> (empty when it has none) and its \<^verbatim>\<open>message\<close>.\<close>

record error =
  code :: string
  message :: string

text \<open>
  The error a failing \<^verbatim>\<open>fs\<close> call on a path raises. Node builds its message as
  \<^verbatim>\<open>CODE: description, syscall 'path'\<close>.
\<close>

definition fs_error :: "string \<Rightarrow> string \<Rightarrow> string \<Rightarrow> pathname \<Rightarrow> error" where
  "fs_error c description syscall p =
     \<lparr>code = c,
      message = c @ '': '' @ description @ '', '' @ syscall @ '' '' @ [CHR 0x27] @ p @ [CHR 0x27]\<rparr>"

definition enoent :: "string \<Rightarrow> pathname \<Rightarrow> error" where
  "enoent syscall p = fs_error ''ENOENT'' ''no such file or directory'' syscall p"

datatype format = Jpeg | Png | Webp

text \<open>
  How a strategy's awaited promise settles: fulfilled, the artifact written in full; or
  rejected with an error, the artifact path holding whatever had been written by then
  (\<open>None\<close>: the output file was never created).
\<close>

datatype outcome = Finished bytes | Errored error "bytes option"

datatype write_fault = OpenFails string string | WriteFails string string bytes

datatype interruption = SendError | Disconnect

record env =
  dirname :: string
  unlink_fault :: "pathname \<Rightarrow> (string \<times> string) option"
  read_fault :: "pathname \<Rightarrow> (string \<times> string) option"
  writeFile_fault :: "pathname \<Rightarrow> write_fault option"
  gzip_stream :: "filesystem \<Rightarrow> pathname \<Rightarrow> pathname \<Rightarrow> outcome"
  sharp_toFile :: "format \<Rightarrow> filesystem \<Rightarrow> pathname \<Rightarrow> pathname \<Rightarrow> outcome"
  pdf_rewrite :: "bytes \<Rightarrow> error + bytes"
  archiver_zip :: "filesystem \<Rightarrow> pathname \<Rightarrow> string \<Rightarrow> pathname \<Rightarrow> outcome"
  interrupted :: "pathname \<Rightarrow> interruption option"

text \<open>Every call that leaves the handler is recorded, in order.\<close>

datatype event =
    Unlink pathname
  | ConsoleError string error
  | ReadFile pathname
  | GzipStream pathname pathname
  | SharpToFile format pathname pathname
  | PdfLoad
  | WriteFile pathname
  | ArchiveZip pathname string pathname
  | SendFile pathname string

record state =
  files :: filesystem
  events :: "event list"

text \<open>
  The \<^verbatim>\<open>fs\<close> calls. On a path that is not on the disk, \<^verbatim>\<open>unlink\<close> and \<^verbatim>\<open>readFile\<close> fail with
  \<^verbatim>\<open>ENOENT\<close>; on a file that is there, they fail when the environment says so, with the
  error code and description it gives. \<^verbatim>\<open>writeFile\<close> fails when it cannot open the file, or
  while writing, the file then holding what was written so far. A call returns its
  result together with the state, since what it did to the disk stays done when it throws.
\<close>

definition emit :: "event \<Rightarrow> state \<Rightarrow> state" where
  "emit e s = s\<lparr>events := events s @ [e]\<rparr>"

definition store :: "pathname \<Rightarrow> bytes \<Rightarrow> state \<Rightarrow> state" where
  "store p b s = s\<lparr>files := (files s)(p \<mapsto> b)\<rparr>"

definition fs_unlink :: "env \<Rightarrow> pathname \<Rightarrow> state \<Rightarrow> (error + unit) \<times> state" where
  "fs_unlink e p s =
     (let s1 = emit (Unlink p) s
      in case files s p of
           None \<Rightarrow> (Inl (enoent ''unlink'' p), s1)
         | Some b \<Rightarrow>
             (case unlink_fault e p of
                Some (c, d) \<Rightarrow> (Inl (fs_error c d ''unlink'' p), s1)
              | None \<Rightarrow> (Inr (), s1\<lparr>files := (files s1)(p := None)\<rparr>)))"

definition fs_readFile :: "env \<Rightarrow> pathname \<Rightarrow> state \<Rightarrow> (error + bytes) \<times> state" where
  "fs_readFile e p s =
     (let s1 = emit (ReadFile p) s
      in case files s p of
           None \<Rightarrow> (Inl (enoent ''open'' p), s1)
         | Some b \<Rightarrow>
             (case read_fault e p of
                Some (c, d) \<Rightarrow> (Inl (fs_error c d ''open'' p), s1)
              | None \<Rightarrow> (Inr b, s1)))"

definition fs_writeFile :: "env \<Rightarrow> pathname \<Rightarrow> bytes \<Rightarrow> state \<Rightarrow> (error + unit) \<times> state" where
  "fs_writeFile e p b s =
     (let s1 = emit (WriteFile p) s
      in case writeFile_fault e p of
           None \<Rightarrow> (Inr (), store p b s1)
         | Some (OpenFails c d) \<Rightarrow> (Inl (fs_error c d ''open'' p), s1)
         | Some (WriteFails c d partial) \<Rightarrow>
             (Inl \<lparr>code = c, message = c @ '': '' @ d @ '', write''\<rparr>, store p partial s1))"

definition settle :: "pathname \<Rightarrow> outcome \<Rightarrow> state \<Rightarrow> (error + unit) \<times> state" where
  "settle dst out s =
     (case out of
        Finished b \<Rightarrow> (Inr (), store dst b s)
      | Errored err partial \<Rightarrow>
          (Inl err, (case partial of None \<Rightarrow> s | Some b \<Rightarrow> store dst b s)))"

section \<open>The helpers of \<^verbatim>\<open>index.js\<close>\<close>

text \<open>
  \<^verbatim>\<open>validatePDF\<close> (lines 20-27) and \<^verbatim>\<open>safeUnlink\<close> (lines 30-38). Both wrap one \<^verbatim>\<open>fs\<close> call
  in \<^verbatim>\<open>try\<close>/\<^verbatim>\<open>catch\<close>; the result type still has room for an error, so that "never raises"
  is a theorem and not a typing accident. \<^verbatim>\<open>fileContents.toString()\<close> decodes the bytes as
  UTF-8, under which the contents start with the ASCII text \<^verbatim>\<open>%PDF-\<close> exactly when the
  bytes do.
\<close>

definition validatePDF :: "env \<Rightarrow> pathname \<Rightarrow> state \<Rightarrow> (error + bool) \<times> state" where
  "validatePDF e filePath s =
     (case fs_readFile e filePath s of
        (Inr fileContents, s1) \<Rightarrow> (Inr (startsWith fileContents ''%PDF-''), s1)
      | (Inl err, s1) \<Rightarrow> (Inr False, s1))"

definition safeUnlink :: "env \<Rightarrow> pathname \<Rightarrow> state \<Rightarrow> (error + unit) \<times> state" where
  "safeUnlink e filePath s =
     (case fs_unlink e filePath s of
        (Inr u, s1) \<Rightarrow> (Inr (), s1)
      | (Inl err, s1) \<Rightarrow>
          (if code err \<noteq> ''ENOENT''
           then (Inr (), emit (ConsoleError (''Error deleting file: '' @ filePath) err) s1)
           else (Inr (), s1)))"


section \<open>The route \<^verbatim>\<open>POST /compress\<close>\<close>

text \<open>
  \<^verbatim>\<open>req.file\<close> as multer's \<^verbatim>\<open>upload.single("file")\<close> leaves it: absent when the request
  carried no file, otherwise the temporary path multer stored the upload under, the
  filename the client gave, and the number of bytes received.
\<close>

record upload =
  path :: pathname
  originalname :: string
  size_bytes :: nat

record request =
  req_file :: "upload option"

datatype transfer = Sent bytes | TransferError | ClientDisconnected

datatype response =
    Json nat string "string option"
  | Download string transfer

definition supportedTypes_text :: "string list" where
  "supportedTypes_text = [''.txt'', ''.log'', ''.json'']"

definition supportedTypes_image :: "string list" where
  "supportedTypes_image = [''.jpg'', ''.jpeg'', ''.png'', ''.webp'']"

definition supportedTypes_pdf :: "string list" where
  "supportedTypes_pdf = [''.pdf'']"

definition supportedTypes_word :: "string list" where
  "supportedTypes_word = [''.doc'', ''.docx'']"

definition supportedTypes_other :: "string list" where
  "supportedTypes_other = [''.zip'', ''.gz'', ''.rar'', ''.7z'']"

definition supportedTypes_values :: "string list list" where
  "supportedTypes_values =
     [supportedTypes_text, supportedTypes_image, supportedTypes_pdf,
      supportedTypes_word, supportedTypes_other]"

definition isSupported :: "string \<Rightarrow> bool" where
  "isSupported fileExt = (fileExt \<in> set (concat supportedTypes_values))"

definition fileExt_of :: "upload \<Rightarrow> string" where
  "fileExt_of f = toLowerCase (extname (originalname f))"

definition fileName_of :: "upload \<Rightarrow> string" where
  "fileName_of f = basename (originalname f) (fileExt_of f)"

definition outputDir :: "env \<Rightarrow> pathname" where
  "outputDir e = path_join [dirname e, ''uploads'']"

text \<open>
  \<^verbatim>\<open>res.download(path, filename, callback)\<close>: Express streams the file and reports the end
  of the transfer, whatever it was, through the callback. A file that is not there ends
  the transfer with an error.
\<close>

definition res_download :: "env \<Rightarrow> pathname \<Rightarrow> string \<Rightarrow> state \<Rightarrow> transfer \<times> state" where
  "res_download e p name s =
     (let s1 = emit (SendFile p name) s
      in case files s p of
           None \<Rightarrow> (TransferError, s1)
         | Some b \<Rightarrow>
             (case interrupted e p of
                None \<Rightarrow> (Sent b, s1)
              | Some SendError \<Rightarrow> (TransferError, s1)
              | Some Disconnect \<Rightarrow> (ClientDisconnected, s1)))"

text \<open>
  The branches of the strategy chain (lines 67-134). Each yields a thrown error, or a
  response returned early, or the value of \<^verbatim>\<open>compressedFilePath\<close> it leaves.
\<close>

type_synonym branch_result = "(error + (response + pathname option)) \<times> state"

definition text_branch :: "env \<Rightarrow> upload \<Rightarrow> state \<Rightarrow> branch_result" where
  "text_branch e f s =
     (let compressedFilePath = path_join [outputDir e, fileName_of f @ ''.gz''];
          s1 = emit (GzipStream (path f) compressedFilePath) s
      in case settle compressedFilePath (gzip_stream e (files s) (path f) compressedFilePath) s1 of
           (Inl err, s2) \<Rightarrow> (Inl err, s2)
         | (Inr u, s2) \<Rightarrow> (Inr (Inr (Some compressedFilePath)), s2))"

definition sharp_encode :: "env \<Rightarrow> format \<Rightarrow> pathname \<Rightarrow> pathname \<Rightarrow> state \<Rightarrow> branch_result" where
  "sharp_encode e fmt filePath compressedFilePath s =
     (let s1 = emit (SharpToFile fmt filePath compressedFilePath) s
      in case settle compressedFilePath (sharp_toFile e fmt (files s) filePath compressedFilePath) s1 of
           (Inl err, s2) \<Rightarrow> (Inl err, s2)
         | (Inr u, s2) \<Rightarrow> (Inr (Inr (Some compressedFilePath)), s2))"

definition image_branch :: "env \<Rightarrow> upload \<Rightarrow> state \<Rightarrow> branch_result" where
  "image_branch e f s =
     (let compressedFilePath = path_join [outputDir e, ''compressed-'' @ originalname f]
      in if fileExt_of f = ''.jpg'' \<or> fileExt_of f = ''.jpeg''
         then sharp_encode e Jpeg (path f) compressedFilePath s
         else if fileExt_of f = ''.png'' then sharp_encode e Png (path f) compressedFilePath s
         else if fileExt_of f = ''.webp'' then sharp_encode e Webp (path f) compressedFilePath s
         else (Inr (Inr (Some compressedFilePath)), s))"

definition invalid_pdf :: response where
  "invalid_pdf = Json 400 ''Invalid PDF file'' (Some ''The uploaded file is not a valid PDF document'')"

definition pdf_branch :: "env \<Rightarrow> upload \<Rightarrow> state \<Rightarrow> branch_result" where
  "pdf_branch e f s =
     (case validatePDF e (path f) s of
        (Inl err, s1) \<Rightarrow> (Inl err, s1)
      | (Inr isValidPDF, s1) \<Rightarrow>
          (if \<not> isValidPDF then
             (case safeUnlink e (path f) s1 of
                (Inl err, s2) \<Rightarrow> (Inl err, s2)
              | (Inr u, s2) \<Rightarrow> (Inr (Inl invalid_pdf), s2))
           else
             (case fs_readFile e (path f) s1 of
                (Inl err, s2) \<Rightarrow> (Inl err, s2)
              | (Inr fileContents, s2) \<Rightarrow>
                  (case pdf_rewrite e fileContents of
                     Inl err \<Rightarrow> (Inl err, emit PdfLoad s2)
                   | Inr pdfBytes \<Rightarrow>
                       (let compressedFilePath =
                              path_join [outputDir e, ''compressed-'' @ originalname f]
                        in case fs_writeFile e compressedFilePath pdfBytes (emit PdfLoad s2) of
                             (Inl err, s3) \<Rightarrow> (Inl err, s3)
                           | (Inr u, s3) \<Rightarrow> (Inr (Inr (Some compressedFilePath)), s3))))))"

definition zip_branch :: "env \<Rightarrow> upload \<Rightarrow> state \<Rightarrow> branch_result" where
  "zip_branch e f s =
     (let compressedFilePath = path_join [outputDir e, fileName_of f @ ''.zip''];
          s1 = emit (ArchiveZip (path f) (originalname f) compressedFilePath) s
      in case settle compressedFilePath
                (archiver_zip e (files s) (path f) (originalname f) compressedFilePath) s1 of
           (Inl err, s2) \<Rightarrow> (Inl err, s2)
         | (Inr u, s2) \<Rightarrow> (Inr (Inr (Some compressedFilePath)), s2))"

definition strategy :: "env \<Rightarrow> upload \<Rightarrow> state \<Rightarrow> branch_result" where
  "strategy e f s =
     (if fileExt_of f \<in> set supportedTypes_text then text_branch e f s
      else if fileExt_of f \<in> set supportedTypes_image then image_branch e f s
      else if fileExt_of f \<in> set supportedTypes_pdf then pdf_branch e f s
      else if fileExt_of f \<in> set supportedTypes_word \<or> fileExt_of f \<in> set supportedTypes_other
      then zip_branch e f s
      else (Inr (Inr None), s))"

text \<open>The callback given to \<^verbatim>\<open>res.download\<close> (lines 138-144).\<close>

definition download_callback :: "env \<Rightarrow> pathname \<Rightarrow> state \<Rightarrow> state" where
  "download_callback e compressedFilePath s =
     (case safeUnlink e compressedFilePath s of
        (Inr u, s1) \<Rightarrow> s1
      | (Inl err, s1) \<Rightarrow> emit (ConsoleError ''Failed to delete compressed file:'' err) s1)"

text \<open>
  What \<^verbatim>\<open>res.download\<close> throws when \<^verbatim>\<open>compressedFilePath\<close> is still undefined. No
  supported extension leads there.
\<close>

definition undefined_path_error :: error where
  "undefined_path_error =
     \<lparr>code = ''ERR_INVALID_ARG_TYPE'',
      message = ''The '' @ [CHR 0x22] @ ''paths[0]'' @ [CHR 0x22] @
                '' argument must be of type string. Received undefined''\<rparr>"

text \<open>The body of the \<^verbatim>\<open>try\<close> (lines 46-144).\<close>

definition try_block :: "env \<Rightarrow> upload \<Rightarrow> state \<Rightarrow> (error + response) \<times> state" where
  "try_block e f s =
     (if \<not> isSupported (fileExt_of f) then
        (case safeUnlink e (path f) s of
           (Inl err, s1) \<Rightarrow> (Inl err, s1)
         | (Inr u, s1) \<Rightarrow> (Inr (Json 400 ''Unsupported file type'' None), s1))
      else
        (case strategy e f s of
           (Inl err, s1) \<Rightarrow> (Inl err, s1)
         | (Inr (Inl early), s1) \<Rightarrow> (Inr early, s1)
         | (Inr (Inr compressedFilePath), s1) \<Rightarrow>
             (case safeUnlink e (path f) s1 of
                (Inl err, s2) \<Rightarrow> (Inl err, s2)
              | (Inr u, s2) \<Rightarrow>
                  (case compressedFilePath of
                     None \<Rightarrow> (Inl undefined_path_error, s2)
                   | Some p \<Rightarrow>
                       (case res_download e p (''compressed-'' @ originalname f) s2 of
                          (t, s3) \<Rightarrow>
                            (Inr (Download (''compressed-'' @ originalname f) t),
                             download_callback e p s3))))))"

text \<open>The handler (lines 40-153): the no-file check, the \<^verbatim>\<open>try\<close>, the \<^verbatim>\<open>catch\<close>.\<close>

definition handler :: "env \<Rightarrow> request \<Rightarrow> state \<Rightarrow> response \<times> state" where
  "handler e req s =
     (case req_file req of
        None \<Rightarrow> (Json 400 ''No file uploaded'' None, s)
      | Some f \<Rightarrow>
          (case try_block e f s of
             (Inr resp, s1) \<Rightarrow> (resp, s1)
           | (Inl err, s1) \<Rightarrow>
               (let s2 = emit (ConsoleError ''Compression Error:'' err) s1;
                    s3 = snd (safeUnlink e (path f) s2)
                in (Json 500 ''Compression failed'' (Some (message err)), s3))))"


section \<open>Notions the properties are stated with\<close>

text \<open>
  The category of an extension: which list of \<^verbatim>\<open>supportedTypes\<close> holds it, in the order
  the handler's chain asks (\<open>strategy_classify\<close> below shows the chain dispatches on it).
\<close>

datatype category = Text | ImageCat | PDF | Document | Archive | Unsupported

definition classify :: "string \<Rightarrow> category" where
  "classify fileExt =
     (if \<not> isSupported fileExt then Unsupported
      else if fileExt \<in> set supportedTypes_text then Text
      else if fileExt \<in> set supportedTypes_image then ImageCat
      else if fileExt \<in> set supportedTypes_pdf then PDF
      else if fileExt \<in> set supportedTypes_word then Document
      else if fileExt \<in> set supportedTypes_other then Archive
      else Unsupported)"

text \<open>
  The value the chain assigns to \<^verbatim>\<open>compressedFilePath\<close> (lines 68, 80, 118, 122), as a
  function of the original filename.
\<close>

definition artifact_path :: "env \<Rightarrow> string \<Rightarrow> pathname option" where
  "artifact_path e name =
     (let fileExt = toLowerCase (extname name);
          fileName = basename name fileExt
      in if fileExt \<in> set supportedTypes_text
         then Some (path_join [outputDir e, fileName @ ''.gz''])
         else if fileExt \<in> set supportedTypes_image
         then Some (path_join [outputDir e, ''compressed-'' @ name])
         else if fileExt \<in> set supportedTypes_pdf
         then Some (path_join [outputDir e, ''compressed-'' @ name])
         else if fileExt \<in> set supportedTypes_word \<or> fileExt \<in> set supportedTypes_other
         then Some (path_join [outputDir e, fileName @ ''.zip''])
         else None)"

text \<open>
  The calls in a trace, console output left out; and the part of a trace that a run
  from state \<open>s\<close> to state \<open>s'\<close> added.
\<close>

definition is_console :: "event \<Rightarrow> bool" where
  "is_console ev = (case ev of ConsoleError m er \<Rightarrow> True | _ \<Rightarrow> False)"

definition operations :: "event list \<Rightarrow> event list" where
  "operations evs = filter (\<lambda>ev. \<not> is_console ev) evs"

definition since :: "state \<Rightarrow> state \<Rightarrow> event list" where
  "since s s' = drop (length (events s)) (events s')"

text \<open>What \<^verbatim>\<open>safeUnlink\<close> writes to the console.\<close>

definition unlink_log :: "env \<Rightarrow> pathname \<Rightarrow> state \<Rightarrow> event list" where
  "unlink_log e p s =
     (case files s p of
        None \<Rightarrow> []
      | Some b \<Rightarrow>
          (case unlink_fault e p of
             None \<Rightarrow> []
           | Some (c, d) \<Rightarrow>
               (if c \<noteq> ''ENOENT''
                then [ConsoleError (''Error deleting file: '' @ p) (fs_error c d ''unlink'' p)]
                else [])))"

section \<open>Concrete requests and environments\<close>

text \<open>
  An environment in which nothing fails: the strategies produce an artifact that shows
  which source it came from, and every transfer completes.
\<close>

definition read_source :: "string \<Rightarrow> filesystem \<Rightarrow> pathname \<Rightarrow> outcome" where
  "read_source tag fs src =
     (case fs src of
        None \<Rightarrow> Errored (enoent ''open'' src) None
      | Some b \<Rightarrow> Finished (tag @ b))"

definition quiet_env :: env where
  "quiet_env =
     \<lparr>dirname = ''/app'',
      unlink_fault = (\<lambda>p. None),
      read_fault = (\<lambda>p. None),
      writeFile_fault = (\<lambda>p. None),
      gzip_stream = (\<lambda>fs src dst. read_source ''gz:'' fs src),
      sharp_toFile = (\<lambda>fmt fs src dst. read_source ''img:'' fs src),
      pdf_rewrite = (\<lambda>b. Inr b),
      archiver_zip = (\<lambda>fs src name dst. read_source ''zip:'' fs src),
      interrupted = (\<lambda>p. None)\<rparr>"

text \<open>The disk fills up while the gzip stream is being written.\<close>

definition full_disk_env :: env where
  "full_disk_env =
     quiet_env\<lparr>gzip_stream := (\<lambda>fs src dst.
        Errored \<lparr>code = ''ENOSPC'', message = ''ENOSPC: no space left on device, write''\<rparr>
          (Some ''gz:he''))\<rparr>"

text \<open>
  A directory stands where the gzip artifact is to be written: the write stream fails to
  open its file, with the error Node raises for it.
\<close>

definition blocked_artifact_env :: env where
  "blocked_artifact_env =
     quiet_env\<lparr>gzip_stream := (\<lambda>fs src dst.
        Errored (fs_error ''EISDIR'' ''illegal operation on a directory'' ''open'' dst) None)\<rparr>"

text \<open>Files cannot be removed; files cannot be read; the client goes away.\<close>

definition undeletable_env :: env where
  "undeletable_env =
     quiet_env\<lparr>unlink_fault := (\<lambda>p. Some (''EPERM'', ''operation not permitted''))\<rparr>"

definition unreadable_env :: env where
  "unreadable_env =
     quiet_env\<lparr>read_fault := (\<lambda>p. Some (''EACCES'', ''permission denied''))\<rparr>"

definition hangup_env :: env where
  "hangup_env = quiet_env\<lparr>interrupted := (\<lambda>p. Some Disconnect)\<rparr>"

definition send_error_env :: env where
  "send_error_env = quiet_env\<lparr>interrupted := (\<lambda>p. Some SendError)\<rparr>"

definition disk :: "(pathname \<times> bytes) list \<Rightarrow> state" where
  "disk entries = \<lparr>files = map_of entries, events = []\<rparr>"

definition notes_upload :: upload where
  "notes_upload = \<lparr>path = ''/app/uploads/3f2a91c0'', originalname = ''notes.txt'', size_bytes = 5\<rparr>"

definition notes_disk :: state where
  "notes_disk = disk [(''/app/uploads/3f2a91c0'', ''hello'')]"

definition empty_upload :: upload where
  "empty_upload = \<lparr>path = ''/app/uploads/00d1e2f3'', originalname = ''empty.txt'', size_bytes = 0\<rparr>"

definition empty_disk :: state where
  "empty_disk = disk [(''/app/uploads/00d1e2f3'', [])]"

definition shouting_upload :: upload where
  "shouting_upload = \<lparr>path = ''/app/uploads/9c1d44aa'', originalname = ''REPORT.TXT'', size_bytes = 6\<rparr>"

definition shouting_disk :: state where
  "shouting_disk = disk [(''/app/uploads/9c1d44aa'', ''totals'')]"

definition fake_pdf_upload :: upload where
  "fake_pdf_upload = \<lparr>path = ''/app/uploads/77aa0b1c'', originalname = ''Scan.PDF'', size_bytes = 10\<rparr>"

definition fake_pdf_disk :: state where
  "fake_pdf_disk = disk [(''/app/uploads/77aa0b1c'', ''GIF89a....'')]"

definition true_pdf_upload :: upload where
  "true_pdf_upload = \<lparr>path = ''/app/uploads/e0f1a2b3'', originalname = ''a.pdf'', size_bytes = 8\<rparr>"

definition true_pdf_disk :: state where
  "true_pdf_disk = disk [(''/app/uploads/e0f1a2b3'', ''%PDF-1.7'')]"

definition loud_image :: upload where
  "loud_image = \<lparr>path = ''/app/uploads/c4d5e6f7'', originalname = ''IMG.PNG'', size_bytes = 3\<rparr>"

definition soft_image :: upload where
  "soft_image = \<lparr>path = ''/app/uploads/0a1b2c3d'', originalname = ''img.png'', size_bytes = 3\<rparr>"

definition makefile_upload :: upload where
  "makefile_upload = \<lparr>path = ''/app/uploads/5e6f7a8b'', originalname = ''Makefile'', size_bytes = 9\<rparr>"

definition hidden_pdf :: upload where
  "hidden_pdf = \<lparr>path = ''/app/uploads/d4c3b2a1'', originalname = ''.pdf'', size_bytes = 8\<rparr>"

definition hidden_pdf_disk :: state where
  "hidden_pdf_disk = disk [(''/app/uploads/d4c3b2a1'', ''%PDF-1.7'')]"

definition trailing_dot_upload :: upload where
  "trailing_dot_upload = \<lparr>path = ''/app/uploads/1b2c3d4e'', originalname = ''notes.'', size_bytes = 5\<rparr>"

definition first_report :: upload where
  "first_report = \<lparr>path = ''/app/uploads/aaaa1111'', originalname = ''report.txt'', size_bytes = 5\<rparr>"

definition second_report :: upload where
  "second_report = \<lparr>path = ''/app/uploads/bbbb2222'', originalname = ''report.txt'', size_bytes = 6\<rparr>"

definition two_reports_disk :: state where
  "two_reports_disk =
     disk [(''/app/uploads/aaaa1111'', ''first''), (''/app/uploads/bbbb2222'', ''second'')]"


section \<open>Basic facts\<close>

lemmas supported_defs = supportedTypes_values_def supportedTypes_text_def
  supportedTypes_image_def supportedTypes_pdf_def supportedTypes_word_def
  supportedTypes_other_def

lemma code_fs_error [simp]: "code (fs_error c d sc p) = c"
  by (simp add: fs_error_def)

lemma operations_simps [simp]:
  "operations [] = []"
  "operations (Unlink p # evs) = Unlink p # operations evs"
  "operations (SendFile p n # evs) = SendFile p n # operations evs"
  "operations (ReadFile p # evs) = ReadFile p # operations evs"
  "operations (ConsoleError m er # evs) = operations evs"
  by (simp_all add: operations_def is_console_def)

lemma operations_append [simp]: "operations (xs @ ys) = operations xs @ operations ys"
  by (simp add: operations_def)

lemma operations_unlink_log [simp]: "operations (unlink_log e p s) = []"
  by (simp add: operations_def unlink_log_def is_console_def split: option.splits)

lemma since_append: "events s' = events s @ xs \<Longrightarrow> since s s' = xs"
  by (simp add: since_def)

subsection \<open>\<^verbatim>\<open>safeUnlink\<close>\<close>

lemma safeUnlink_fst [simp]: "fst (safeUnlink e p s) = Inr ()"
  by (simp add: safeUnlink_def fs_unlink_def Let_def enoent_def
      split: option.splits prod.splits sum.splits)

lemma safeUnlink_pair: "safeUnlink e p s = (Inr (), snd (safeUnlink e p s))"
  by (metis safeUnlink_fst prod.collapse)

lemma safeUnlink_case [simp]:
  "(case safeUnlink e p s of (Inl err, s1) \<Rightarrow> A err s1 | (Inr u, s1) \<Rightarrow> B u s1) =
     B () (snd (safeUnlink e p s))"
  by (subst safeUnlink_pair) simp

lemma safeUnlink_events:
  "events (snd (safeUnlink e p s)) = events s @ Unlink p # unlink_log e p s"
  by (simp add: safeUnlink_def fs_unlink_def Let_def enoent_def emit_def unlink_log_def
      split: option.splits prod.splits sum.splits)

lemma safeUnlink_files:
  "files (snd (safeUnlink e p s)) =
     (if files s p = None \<or> unlink_fault e p = None then (files s)(p := None) else files s)"
  by (auto simp add: safeUnlink_def fs_unlink_def Let_def enoent_def emit_def
      split: option.splits prod.splits sum.splits)

subsection \<open>\<^verbatim>\<open>validatePDF\<close> and \<^verbatim>\<open>res.download\<close>\<close>

lemma validatePDF_fst:
  "fst (validatePDF e p s) =
     Inr (case fst (fs_readFile e p s) of Inl err \<Rightarrow> False | Inr c \<Rightarrow> startsWith c ''%PDF-'')"
  by (simp add: validatePDF_def split: prod.splits sum.splits)

lemma validatePDF_snd: "snd (validatePDF e p s) = emit (ReadFile p) s"
  by (simp add: validatePDF_def fs_readFile_def Let_def
      split: prod.splits sum.splits option.splits)

lemma validatePDF_pair:
  "validatePDF e p s =
     (Inr (case fst (fs_readFile e p s) of Inl err \<Rightarrow> False | Inr c \<Rightarrow> startsWith c ''%PDF-''),
      emit (ReadFile p) s)"
  by (metis validatePDF_fst validatePDF_snd prod.collapse)

lemma res_download_events:
  "events (snd (res_download e p name s)) = events s @ [SendFile p name]"
  by (simp add: res_download_def Let_def emit_def split: option.splits interruption.splits)

lemma res_download_files: "files (snd (res_download e p name s)) = files s"
  by (simp add: res_download_def Let_def emit_def split: option.splits interruption.splits)

lemma download_callback_eq: "download_callback e p s = snd (safeUnlink e p s)"
  by (simp add: download_callback_def)

subsection \<open>The strategy chain\<close>

lemma strategy_classify:
  "strategy e f s =
     (case classify (fileExt_of f) of
        Text \<Rightarrow> text_branch e f s
      | ImageCat \<Rightarrow> image_branch e f s
      | PDF \<Rightarrow> pdf_branch e f s
      | Document \<Rightarrow> zip_branch e f s
      | Archive \<Rightarrow> zip_branch e f s
      | Unsupported \<Rightarrow> (Inr (Inr None), s))"
  unfolding strategy_def classify_def isSupported_def supported_defs
  by simp

lemma classify_table:
  "classify x =
     (if x \<in> {''.txt'', ''.log'', ''.json''} then Text
      else if x \<in> {''.jpg'', ''.jpeg'', ''.png'', ''.webp''} then ImageCat
      else if x \<in> {''.pdf''} then PDF
      else if x \<in> {''.doc'', ''.docx''} then Document
      else if x \<in> {''.zip'', ''.gz'', ''.rar'', ''.7z''} then Archive
      else Unsupported)"
  unfolding classify_def isSupported_def supported_defs by simp

lemma classify_pdf: "classify x = PDF \<longleftrightarrow> x = ''.pdf''"
  unfolding classify_def isSupported_def supported_defs by auto

lemma isSupported_classify: "isSupported x \<longleftrightarrow> classify x \<noteq> Unsupported"
  unfolding classify_def isSupported_def supported_defs by auto

lemma settle_case:
  "(case settle dst out s of
      (Inl err, s2) \<Rightarrow> (Inl err, s2)
    | (Inr u, s2) \<Rightarrow> (Inr (Inr (Some q)), s2)) = r
   \<Longrightarrow> fst r = Inr v \<Longrightarrow> v = Inr (Some q)"
  by (auto simp add: settle_def split: outcome.splits option.splits)

lemma text_branch_Inr:
  "fst (text_branch e f s) = Inr v \<Longrightarrow>
     v = Inr (Some (path_join [outputDir e, fileName_of f @ ''.gz'']))"
  unfolding text_branch_def Let_def by (erule settle_case[OF refl])

lemma sharp_encode_Inr:
  "fst (sharp_encode e fmt src dst s) = Inr v \<Longrightarrow> v = Inr (Some dst)"
  unfolding sharp_encode_def Let_def by (erule settle_case[OF refl])

lemma image_branch_Inr:
  "fst (image_branch e f s) = Inr v \<Longrightarrow>
     v = Inr (Some (path_join [outputDir e, ''compressed-'' @ originalname f]))"
  unfolding image_branch_def Let_def
  by (auto dest: sharp_encode_Inr split: if_splits)

lemma zip_branch_Inr:
  "fst (zip_branch e f s) = Inr v \<Longrightarrow>
     v = Inr (Some (path_join [outputDir e, fileName_of f @ ''.zip'']))"
  unfolding zip_branch_def Let_def by (erule settle_case[OF refl])

lemma pdf_branch_Inr:
  "fst (pdf_branch e f s) = Inr v \<Longrightarrow>
     v = Inl invalid_pdf \<or>
     v = Inr (Some (path_join [outputDir e, ''compressed-'' @ originalname f]))"
  unfolding pdf_branch_def Let_def
  by (auto simp add: validatePDF_pair split: if_splits prod.splits sum.splits)

lemma strategy_early:
  "fst (strategy e f s) = Inr (Inl early) \<Longrightarrow> early = invalid_pdf"
  unfolding strategy_def
  by (auto dest: text_branch_Inr image_branch_Inr pdf_branch_Inr zip_branch_Inr
      split: if_splits)

lemma strategy_path:
  "fst (strategy e f s) = Inr (Inr p) \<Longrightarrow> p = artifact_path e (originalname f)"
  unfolding strategy_def artifact_path_def Let_def fileExt_of_def[symmetric]
  using text_branch_Inr[of e f s "Inr p"] image_branch_Inr[of e f s "Inr p"]
    pdf_branch_Inr[of e f s "Inr p"] zip_branch_Inr[of e f s "Inr p"]
  by (simp add: fileName_of_def fileExt_of_def split: if_splits)

lemma strategy_Some_supported:
  "fst (strategy e f s) = Inr (Inr (Some p)) \<Longrightarrow> isSupported (fileExt_of f)"
  by (auto simp add: strategy_classify isSupported_classify split: category.splits)

lemma pdf_branch_invalid:
  assumes "(case fst (fs_readFile e (path f) s) of
              Inl err \<Rightarrow> False
            | Inr c \<Rightarrow> startsWith c ''%PDF-'') = False"
  shows "pdf_branch e f s =
           (Inr (Inl invalid_pdf), snd (safeUnlink e (path f) (emit (ReadFile (path f)) s)))"
  using assms by (simp add: pdf_branch_def validatePDF_pair)

subsection \<open>The handler, exit by exit\<close>

lemma handler_invalid_pdf:
  assumes "fileExt_of f = ''.pdf''"
    and "(case fst (fs_readFile e (path f) s) of
            Inl err \<Rightarrow> False
          | Inr c \<Rightarrow> startsWith c ''%PDF-'') = False"
  shows "handler e \<lparr>req_file = Some f\<rparr> s =
           (invalid_pdf, snd (safeUnlink e (path f) (emit (ReadFile (path f)) s)))"
proof -
  have c: "classify (fileExt_of f) = PDF"
    using assms(1) by (simp add: classify_pdf)
  have sup: "isSupported (fileExt_of f)"
    using c by (simp add: isSupported_classify)
  have st: "strategy e f s =
      (Inr (Inl invalid_pdf), snd (safeUnlink e (path f) (emit (ReadFile (path f)) s)))"
    using pdf_branch_invalid[OF assms(2)] c by (simp add: strategy_classify)
  show ?thesis by (simp add: handler_def try_block_def sup st)
qed

lemma handler_success:
  assumes "strategy e f s = (Inr (Inr (Some p)), s1)"
  shows "handler e \<lparr>req_file = Some f\<rparr> s =
     (Download (''compressed-'' @ originalname f)
        (fst (res_download e p (''compressed-'' @ originalname f)
                (snd (safeUnlink e (path f) s1)))),
      snd (safeUnlink e p
        (snd (res_download e p (''compressed-'' @ originalname f)
                (snd (safeUnlink e (path f) s1))))))"
proof -
  have sup: "isSupported (fileExt_of f)"
    using assms strategy_Some_supported[of e f s p] by simp
  show ?thesis
    by (simp add: handler_def try_block_def sup assms download_callback_eq split: prod.splits)
qed

lemma handler_catch:
  "try_block e f s = (Inl err, s1) \<Longrightarrow>
   handler e \<lparr>req_file = Some f\<rparr> s =
     (Json 500 ''Compression failed'' (Some (message err)),
      snd (safeUnlink e (path f) (emit (ConsoleError ''Compression Error:'' err) s1)))"
  by (simp add: handler_def Let_def)

lemma handler_strategy_fails:
  assumes "isSupported (fileExt_of f)" and "strategy e f s = (Inl err, s1)"
  shows "fst (handler e \<lparr>req_file = Some f\<rparr> s) =
           Json 500 ''Compression failed'' (Some (message err)) \<and>
         operations (since s1 (snd (handler e \<lparr>req_file = Some f\<rparr> s))) = [Unlink (path f)] \<and>
         (\<forall>q. q \<noteq> path f \<longrightarrow> files (snd (handler e \<lparr>req_file = Some f\<rparr> s)) q = files s1 q)"
proof -
  let ?s2 = "emit (ConsoleError ''Compression Error:'' err) s1"
  let ?s3 = "snd (safeUnlink e (path f) ?s2)"
  have tb: "try_block e f s = (Inl err, s1)"
    using assms by (simp add: try_block_def)
  have h: "handler e \<lparr>req_file = Some f\<rparr> s =
      (Json 500 ''Compression failed'' (Some (message err)), ?s3)"
    by (rule handler_catch[OF tb])
  have ev: "events ?s3 = events s1 @
      (ConsoleError ''Compression Error:'' err # Unlink (path f) # unlink_log e (path f) ?s2)"
    by (simp add: safeUnlink_events emit_def)
  have ops: "operations (since s1 ?s3) = [Unlink (path f)]"
    using since_append[OF ev] by simp
  have fl: "files ?s3 q = files s1 q" if "q \<noteq> path f" for q
    using that by (simp add: safeUnlink_files emit_def)
  show ?thesis using ops fl by (simp add: h)
qed

lemma handler_no_catch:
  "try_block e f s = (Inr r, s1) \<Longrightarrow> handler e \<lparr>req_file = Some f\<rparr> s = (r, s1)"
  by (simp add: handler_def)

lemma try_block_Inr:
  assumes "fst (try_block e f s) = Inr r"
  shows "r = Json 400 ''Unsupported file type'' None \<or> r = invalid_pdf \<or>
         (\<exists>t. r = Download (''compressed-'' @ originalname f) t)"
proof (cases "isSupported (fileExt_of f)")
  case False
  with assms show ?thesis by (simp add: try_block_def)
next
  case True
  obtain v s1 where st: "strategy e f s = (v, s1)" by (cases "strategy e f s")
  show ?thesis
  proof (cases v)
    case (Inl err)
    with assms True st show ?thesis by (simp add: try_block_def)
  next
    case (Inr w)
    show ?thesis
    proof (cases w)
      case (Inl early)
      with Inr st have "fst (strategy e f s) = Inr (Inl early)" by simp
      then have "early = invalid_pdf" by (rule strategy_early)
      with assms True st Inr Inl show ?thesis by (simp add: try_block_def)
    next
      case (Inr q)
      with assms True st \<open>v = Inr w\<close> show ?thesis
        by (cases q) (auto simp add: try_block_def split: prod.splits)
    qed
  qed
qed

lemma handler_Some_response:
  assumes "fst (handler e \<lparr>req_file = Some f\<rparr> s) = r"
  shows "(\<exists>err s1. try_block e f s = (Inl err, s1) \<and>
            r = Json 500 ''Compression failed'' (Some (message err))) \<or>
         r = Json 400 ''Unsupported file type'' None \<or> r = invalid_pdf \<or>
         (\<exists>t. r = Download (''compressed-'' @ originalname f) t)"
proof -
  obtain v s1 where tb: "try_block e f s = (v, s1)" by (cases "try_block e f s")
  show ?thesis
  proof (cases v)
    case (Inl err)
    with tb assms handler_catch[of e f s err s1] show ?thesis by auto
  next
    case (Inr r')
    with tb assms handler_no_catch[of e f s r' s1] have "r = r'" by simp
    moreover from tb Inr have "fst (try_block e f s) = Inr r'" by simp
    ultimately show ?thesis using try_block_Inr[of e f s r'] by blast
  qed
qed

lemma pair_of_fst: "fst x = a \<Longrightarrow> x = (a, snd x)"
  by (cases x) simp

subsection \<open>What a request leaves alone\<close>

lemma emit_files [simp]: "files (emit ev s) = files s"
  by (simp add: emit_def)

lemma safeUnlink_frame: "x \<noteq> p \<Longrightarrow> files (snd (safeUnlink e p s)) x = files s x"
  by (simp add: safeUnlink_files)

lemma settle_frame: "x \<noteq> dst \<Longrightarrow> files (snd (settle dst out s)) x = files s x"
  by (simp add: settle_def store_def split: outcome.splits option.splits)

lemma snd_case_result:
  "snd (case m of (Inl err, s2) \<Rightarrow> (A err, s2) | (Inr u, s2) \<Rightarrow> (B u, s2)) = snd m"
  by (simp split: prod.splits sum.splits)

lemma fs_writeFile_frame:
  "x \<noteq> p \<Longrightarrow> files (snd (fs_writeFile e p b s)) x = files s x"
  by (simp add: fs_writeFile_def store_def Let_def split: option.splits write_fault.splits)

lemma fs_readFile_files: "files (snd (fs_readFile e p s)) = files s"
  by (simp add: fs_readFile_def Let_def split: option.splits prod.splits)

lemma text_branch_frame:
  "x \<noteq> path_join [outputDir e, fileName_of f @ ''.gz''] \<Longrightarrow>
   files (snd (text_branch e f s)) x = files s x"
  unfolding text_branch_def Let_def snd_case_result by (simp add: settle_frame)

lemma sharp_encode_frame:
  "x \<noteq> dst \<Longrightarrow> files (snd (sharp_encode e fmt src dst s)) x = files s x"
  unfolding sharp_encode_def Let_def snd_case_result by (simp add: settle_frame)

lemma image_branch_frame:
  "x \<noteq> path_join [outputDir e, ''compressed-'' @ originalname f] \<Longrightarrow>
   files (snd (image_branch e f s)) x = files s x"
  unfolding image_branch_def Let_def by (simp add: sharp_encode_frame)

lemma zip_branch_frame:
  "x \<noteq> path_join [outputDir e, fileName_of f @ ''.zip''] \<Longrightarrow>
   files (snd (zip_branch e f s)) x = files s x"
  unfolding zip_branch_def Let_def snd_case_result by (simp add: settle_frame)

lemma pdf_branch_frame:
  assumes "x \<noteq> path f" and "x \<noteq> path_join [outputDir e, ''compressed-'' @ originalname f]"
  shows "files (snd (pdf_branch e f s)) x = files s x"
proof (cases "case fst (fs_readFile e (path f) s) of
                Inl err \<Rightarrow> False
              | Inr c \<Rightarrow> startsWith c ''%PDF-''")
  case False
  then show ?thesis
    using assms(1) by (simp add: pdf_branch_invalid safeUnlink_frame)
next
  case True
  let ?s1 = "emit (ReadFile (path f)) s"
  obtain r s2 where rd: "fs_readFile e (path f) ?s1 = (r, s2)"
    by (cases "fs_readFile e (path f) ?s1")
  have s2: "files s2 = files s"
    using fs_readFile_files[of e "path f" ?s1] rd by simp
  show ?thesis
  proof (cases r)
    case (Inl err)
    with True rd s2 show ?thesis
      by (simp add: pdf_branch_def validatePDF_pair)
  next
    case (Inr c)
    show ?thesis
    proof (cases "pdf_rewrite e c")
      case (Inl err)
      with True rd s2 Inr show ?thesis
        by (simp add: pdf_branch_def validatePDF_pair)
    next
      case rw: (Inr b)
      have "snd (pdf_branch e f s) =
          snd (fs_writeFile e (path_join [outputDir e, ''compressed-'' @ originalname f]) b
                 (emit PdfLoad s2))"
        using True rd Inr rw
        by (simp add: pdf_branch_def validatePDF_pair Let_def snd_case_result)
      then show ?thesis
        using assms(2) s2 by (simp add: fs_writeFile_frame)
    qed
  qed
qed

lemma strategy_frame:
  assumes "x \<noteq> path f" and "Some x \<noteq> artifact_path e (originalname f)"
  shows "files (snd (strategy e f s)) x = files s x"
  using assms
  unfolding strategy_def artifact_path_def Let_def fileExt_of_def[symmetric]
  by (auto simp add: text_branch_frame image_branch_frame pdf_branch_frame zip_branch_frame
      fileName_of_def fileExt_of_def split: if_splits)

lemma try_block_frame:
  assumes "x \<noteq> path f" and "Some x \<noteq> artifact_path e (originalname f)"
  shows "files (snd (try_block e f s)) x = files s x"
proof (cases "isSupported (fileExt_of f)")
  case False
  then show ?thesis using assms(1) by (simp add: try_block_def safeUnlink_frame)
next
  case True
  obtain v s1 where st: "strategy e f s = (v, s1)" by (cases "strategy e f s")
  have s1: "files s1 x = files s x"
    using strategy_frame[OF assms, of s] st by simp
  show ?thesis
  proof (cases v)
    case (Inl err)
    with True st s1 show ?thesis by (simp add: try_block_def)
  next
    case (Inr w)
    show ?thesis
    proof (cases w)
      case (Inl early)
      with True st s1 Inr show ?thesis by (simp add: try_block_def)
    next
      case w: (Inr q)
      show ?thesis
      proof (cases q)
        case None
        with True st s1 Inr w assms(1) show ?thesis
          by (simp add: try_block_def safeUnlink_frame)
      next
        case (Some p)
        have "fst (strategy e f s) = Inr (Inr (Some p))" using st Inr w Some by simp
        then have "Some p = artifact_path e (originalname f)" by (rule strategy_path)
        with assms(2) have xp: "x \<noteq> p" by auto
        show ?thesis
          using True st s1 Inr w Some assms(1) xp
          by (simp add: try_block_def safeUnlink_frame res_download_files download_callback_eq
              case_prod_beta)
      qed
    qed
  qed
qed

lemma handler_frame:
  assumes "x \<noteq> path f" and "Some x \<noteq> artifact_path e (originalname f)"
  shows "files (snd (handler e \<lparr>req_file = Some f\<rparr> s)) x = files s x"
proof -
  obtain v s1 where tb: "try_block e f s = (v, s1)" by (cases "try_block e f s")
  have s1: "files s1 x = files s x"
    using try_block_frame[OF assms, of s] tb by simp
  show ?thesis
    using tb s1 assms(1)
    by (cases v) (simp_all add: handler_def Let_def safeUnlink_frame)
qed

section \<open>Classification\<close>

subsection \<open>\<^verbatim>\<open>path.extname\<close> and lower-casing\<close>

lemma lower_char_slash [simp]: "lower_char c = CHR ''/'' \<longleftrightarrow> c = CHR ''/''"
  by (auto simp add: lower_char_def split: option.splits if_splits)

lemma lower_char_dot [simp]: "lower_char c = CHR ''.'' \<longleftrightarrow> c = CHR ''.''"
  by (auto simp add: lower_char_def split: option.splits if_splits)

lemma extname_loop_lower:
  "k \<le> length p \<Longrightarrow> extname_loop (map lower_char p) k s = extname_loop p k s"
proof (induction k arbitrary: s)
  case 0
  then show ?case by simp
next
  case (Suc k)
  then have "k < length p" by simp
  then have nth: "map lower_char p ! k = lower_char (p ! k)" by simp
  from Suc have ih: "extname_loop (map lower_char p) k = extname_loop p k"
    by (intro ext) simp
  show ?case
    by (simp only: extname_loop.simps nth lower_char_slash lower_char_dot ih)
qed

lemma js_slice_map: "js_slice (map f p) a b = map f (js_slice p a b)"
  by (simp add: js_slice_def Let_def take_map drop_map)

lemma extname_lower: "extname (toLowerCase n) = toLowerCase (extname n)"
  by (simp add: extname_def toLowerCase_def extname_loop_lower js_slice_map Let_def)

subsection \<open>The extension of an ordinary filename\<close>

lemma extname_loop_plain:
  assumes "k \<le> j" and "j \<le> length p"
    and "\<forall>i. k \<le> i \<and> i < j \<longrightarrow> p ! i \<noteq> CHR ''/'' \<and> p ! i \<noteq> CHR ''.''"
    and "startDot s = -1" and "end_ix s \<noteq> -1"
  shows "extname_loop p j s = extname_loop p k s"
  using assms
proof (induction j)
  case 0
  then show ?case by simp
next
  case (Suc j)
  show ?case
  proof (cases "k = Suc j")
    case True
    then show ?thesis by simp
  next
    case False
    with Suc.prems have kj: "k \<le> j" by simp
    with Suc.prems have pl: "p ! j \<noteq> CHR ''/''" "p ! j \<noteq> CHR ''.''" by auto
    have step: "extname_loop p (Suc j) s = extname_loop p j s"
      using pl Suc.prems(4,5) by (simp add: Let_def)
    have "extname_loop p j s = extname_loop p k s"
      using Suc.IH kj Suc.prems by simp
    with step show ?thesis by simp
  qed
qed

lemma extname_loop_stem:
  assumes "\<forall>i<j. p ! i \<noteq> CHR ''/''" and "startDot s \<noteq> -1" and "end_ix s \<noteq> -1"
  shows "startDot (extname_loop p j s) = startDot s \<and>
         end_ix (extname_loop p j s) = end_ix s \<and>
         startPart (extname_loop p j s) = startPart s \<and>
         (0 < j \<or> preDotState s \<noteq> 0 \<longrightarrow> preDotState (extname_loop p j s) \<noteq> 0)"
  using assms
proof (induction j arbitrary: s)
  case 0
  then show ?case by simp
next
  case (Suc j)
  define s2 where "s2 =
    (if p ! j = CHR ''.'' then (if preDotState s \<noteq> 1 then s\<lparr>preDotState := 1\<rparr> else s)
     else s\<lparr>preDotState := -1\<rparr>)"
  have ns: "p ! j \<noteq> CHR ''/''" using Suc.prems(1) by simp
  have step: "extname_loop p (Suc j) s = extname_loop p j s2"
    using ns Suc.prems(2,3) by (simp add: Let_def s2_def)
  have s2f: "startDot s2 = startDot s" "end_ix s2 = end_ix s" "startPart s2 = startPart s"
    "preDotState s2 \<noteq> 0"
    by (auto simp add: s2_def)
  have "\<forall>i<j. p ! i \<noteq> CHR ''/''" using Suc.prems(1) by simp
  from Suc.IH[OF this, of s2] s2f Suc.prems(2,3)
  show ?case unfolding step by simp
qed

lemma extname_loop_no_dot:
  assumes "\<forall>i<j. p ! i \<noteq> CHR ''.''" and "startDot s = -1"
  shows "startDot (extname_loop p j s) = -1"
  using assms
proof (induction j arbitrary: s)
  case 0
  then show ?case by simp
next
  case (Suc j)
  have nd: "p ! j \<noteq> CHR ''.''" using Suc.prems(1) by simp
  have rest: "\<forall>i<j. p ! i \<noteq> CHR ''.''" using Suc.prems(1) by simp
  show ?case
    using nd Suc.prems(2) Suc.IH[OF rest]
    by (simp add: Let_def)
qed

lemma extname_loop_step_plain:
  "p ! i \<noteq> CHR ''/'' \<Longrightarrow> p ! i \<noteq> CHR ''.'' \<Longrightarrow> startDot s = -1 \<Longrightarrow> end_ix s = -1 \<Longrightarrow>
   extname_loop p (Suc i) s = extname_loop p i (s\<lparr>end_ix := int i + 1, matchedSlash := False\<rparr>)"
  by (simp add: Let_def)

lemma extname_loop_step_dot:
  "p ! i = CHR ''.'' \<Longrightarrow> startDot s = -1 \<Longrightarrow> end_ix s \<noteq> -1 \<Longrightarrow>
   extname_loop p (Suc i) s = extname_loop p i (s\<lparr>startDot := int i\<rparr>)"
  by (simp add: Let_def)

lemma extname_no_dot: "CHR ''.'' \<notin> set n \<Longrightarrow> extname n = []"
proof -
  assume a: "CHR ''.'' \<notin> set n"
  then have "\<forall>i<length n. n ! i \<noteq> CHR ''.''" by (metis nth_mem)
  then have "startDot (extname_loop n (length n)
      \<lparr>startDot = -1, startPart = 0, end_ix = -1, matchedSlash = True, preDotState = 0\<rparr>) = -1"
    by (rule extname_loop_no_dot) simp
  then show ?thesis by (simp add: extname_def Let_def)
qed

lemma extname_final_dot:
  assumes "b \<noteq> []" and "CHR ''/'' \<notin> set b"
    and "x \<noteq> []" and "CHR ''.'' \<notin> set x" and "CHR ''/'' \<notin> set x"
  shows "extname (b @ ''.'' @ x) = ''.'' @ x"
proof -
  let ?n = "b @ ''.'' @ x"
  let ?B = "length b"
  let ?M = "length b + length x"
  let ?s0 = "\<lparr>startDot = -1, startPart = 0, end_ix = -1, matchedSlash = True, preDotState = 0\<rparr>"
  let ?s1 = "?s0\<lparr>end_ix := int ?M + 1, matchedSlash := False\<rparr>"
  let ?s2 = "?s1\<lparr>startDot := int ?B\<rparr>"
  have len: "length ?n = Suc ?M" by simp
  have nb: "?n ! i = b ! i" if "i < ?B" for i
    using that by (simp add: nth_append)
  have nd: "?n ! ?B = CHR ''.''" by (simp add: nth_append)
  have nx: "?n ! i = x ! (i - Suc ?B)" if "?B < i" for i
  proof -
    from that obtain k where k: "i = Suc ?B + k"
      using less_iff_Suc_add by auto
    show ?thesis unfolding k by (simp add: nth_append)
  qed
  have xplain: "x ! k \<noteq> CHR ''/'' \<and> x ! k \<noteq> CHR ''.''" if "k < length x" for k
    using that assms(4,5) by (metis nth_mem)
  have plain: "?n ! i \<noteq> CHR ''/'' \<and> ?n ! i \<noteq> CHR ''.''" if "?B < i" "i \<le> ?M" for i
  proof -
    have "i - Suc ?B < length x" using that by simp
    then show ?thesis using nx[OF that(1)] xplain by simp
  qed
  have lastp: "?n ! ?M \<noteq> CHR ''/'' \<and> ?n ! ?M \<noteq> CHR ''.''"
    using plain[of ?M] assms(3) by simp
  have step1: "extname_loop ?n (Suc ?M) ?s0 = extname_loop ?n ?M ?s1"
  proof (rule extname_loop_step_plain)
    show "?n ! ?M \<noteq> CHR ''/''" using lastp by blast
    show "?n ! ?M \<noteq> CHR ''.''" using lastp by blast
    show "startDot ?s0 = -1" by simp
    show "end_ix ?s0 = -1" by simp
  qed
  have run: "extname_loop ?n ?M ?s1 = extname_loop ?n (Suc ?B) ?s1"
  proof (rule extname_loop_plain)
    show "Suc ?B \<le> ?M" using assms(3) by (cases x) simp_all
    show "?M \<le> length ?n" by simp
    show "\<forall>i. Suc ?B \<le> i \<and> i < ?M \<longrightarrow> ?n ! i \<noteq> CHR ''/'' \<and> ?n ! i \<noteq> CHR ''.''"
      using plain by simp
    show "startDot ?s1 = -1" by simp
    show "end_ix ?s1 \<noteq> -1" by simp
  qed
  have step2: "extname_loop ?n (Suc ?B) ?s1 = extname_loop ?n ?B ?s2"
  proof (rule extname_loop_step_dot)
    show "?n ! ?B = CHR ''.''" by (rule nd)
    show "startDot ?s1 = -1" by simp
    show "end_ix ?s1 \<noteq> -1" by simp
  qed
  have bns: "\<forall>i<?B. ?n ! i \<noteq> CHR ''/''"
    using nb assms(2) by (metis nth_mem)
  have stem: "startDot (extname_loop ?n ?B ?s2) = int ?B \<and>
         end_ix (extname_loop ?n ?B ?s2) = int ?M + 1 \<and>
         startPart (extname_loop ?n ?B ?s2) = 0 \<and>
         preDotState (extname_loop ?n ?B ?s2) \<noteq> 0"
    using extname_loop_stem[OF bns, of ?s2] assms(1) by simp
  have fin: "extname_loop ?n (length ?n) ?s0 = extname_loop ?n ?B ?s2"
    unfolding len step1 run step2 ..
  have xl: "0 < length x" using assms(3) by simp
  have "extname ?n = js_slice ?n (int ?B) (int ?M + 1)"
    unfolding extname_def fin Let_def using stem xl by simp
  also have "\<dots> = ''.'' @ x"
    by (simp add: js_slice_def Let_def)
  finally show ?thesis .
qed

lemma extname_loop_step_last_dot:
  "p ! i = CHR ''.'' \<Longrightarrow> startDot s = -1 \<Longrightarrow> end_ix s = -1 \<Longrightarrow>
   extname_loop p (Suc i) s =
     extname_loop p i (s\<lparr>end_ix := int i + 1, matchedSlash := False, startDot := int i\<rparr>)"
  by (simp add: Let_def)

lemma extname_leading_dot:
  assumes "CHR ''.'' \<notin> set x" and "CHR ''/'' \<notin> set x"
  shows "extname (''.'' @ x) = []"
proof (cases "x = []")
  case True
  then show ?thesis by (simp add: extname_def Let_def)
next
  case False
  let ?n = "''.'' @ x"
  let ?M = "length x"
  let ?s0 = "\<lparr>startDot = -1, startPart = 0, end_ix = -1, matchedSlash = True, preDotState = 0\<rparr>"
  let ?s1 = "?s0\<lparr>end_ix := int ?M + 1, matchedSlash := False\<rparr>"
  let ?s2 = "?s1\<lparr>startDot := 0\<rparr>"
  have len: "length ?n = Suc ?M" by simp
  have xplain: "x ! k \<noteq> CHR ''/'' \<and> x ! k \<noteq> CHR ''.''" if "k < length x" for k
    using that assms by (metis nth_mem)
  have plain: "?n ! i \<noteq> CHR ''/'' \<and> ?n ! i \<noteq> CHR ''.''" if "0 < i" "i \<le> ?M" for i
  proof -
    from that(1) obtain k where k: "i = Suc k" by (cases i) simp_all
    then have "k < length x" using that(2) by simp
    then show ?thesis using xplain[of k] k by simp
  qed
  have lastp: "?n ! ?M \<noteq> CHR ''/'' \<and> ?n ! ?M \<noteq> CHR ''.''"
    using plain[of ?M] False by simp
  have step1: "extname_loop ?n (Suc ?M) ?s0 = extname_loop ?n ?M ?s1"
  proof (rule extname_loop_step_plain)
    show "?n ! ?M \<noteq> CHR ''/''" using lastp by blast
    show "?n ! ?M \<noteq> CHR ''.''" using lastp by blast
    show "startDot ?s0 = -1" by simp
    show "end_ix ?s0 = -1" by simp
  qed
  have run: "extname_loop ?n ?M ?s1 = extname_loop ?n (Suc 0) ?s1"
  proof (rule extname_loop_plain)
    show "Suc 0 \<le> ?M" using False by (cases x) simp_all
    show "?M \<le> length ?n" by simp
    show "\<forall>i. Suc 0 \<le> i \<and> i < ?M \<longrightarrow> ?n ! i \<noteq> CHR ''/'' \<and> ?n ! i \<noteq> CHR ''.''"
      using plain by simp
    show "startDot ?s1 = -1" by simp
    show "end_ix ?s1 \<noteq> -1" by simp
  qed
  have step2: "extname_loop ?n (Suc 0) ?s1 = extname_loop ?n 0 ?s2"
  proof -
    have "extname_loop ?n (Suc 0) ?s1 = extname_loop ?n 0 (?s1\<lparr>startDot := int 0\<rparr>)"
    proof (rule extname_loop_step_dot)
      show "?n ! 0 = CHR ''.''" by simp
      show "startDot ?s1 = -1" by simp
      show "end_ix ?s1 \<noteq> -1" by simp
    qed
    then show ?thesis by simp
  qed
  have fin: "extname_loop ?n (length ?n) ?s0 = ?s2"
    unfolding len step1 run step2 by simp
  show ?thesis
    unfolding extname_def fin Let_def by simp
qed

lemma extname_trailing_dot:
  assumes "CHR ''/'' \<notin> set b"
  shows "extname (b @ ''.'') = [] \<or> extname (b @ ''.'') = ''.''"
proof -
  let ?n = "b @ ''.''"
  let ?B = "length b"
  let ?s0 = "\<lparr>startDot = -1, startPart = 0, end_ix = -1, matchedSlash = True, preDotState = 0\<rparr>"
  let ?s2 = "?s0\<lparr>end_ix := int ?B + 1, matchedSlash := False, startDot := int ?B\<rparr>"
  let ?r = "extname_loop ?n ?B ?s2"
  have len: "length ?n = Suc ?B" by simp
  have step: "extname_loop ?n (Suc ?B) ?s0 = ?r"
  proof (rule extname_loop_step_last_dot)
    show "?n ! ?B = CHR ''.''" by (simp add: nth_append)
    show "startDot ?s0 = -1" by simp
    show "end_ix ?s0 = -1" by simp
  qed
  have bns: "\<forall>i<?B. ?n ! i \<noteq> CHR ''/''"
    using assms by (metis nth_append nth_mem)
  have stem: "startDot ?r = int ?B \<and> end_ix ?r = int ?B + 1"
    using extname_loop_stem[OF bns, of ?s2] by simp
  have sl: "js_slice ?n (int ?B) (int ?B + 1) = ''.''"
    by (simp add: js_slice_def Let_def)
  have "extname ?n = [] \<or> extname ?n = js_slice ?n (int ?B) (int ?B + 1)"
    unfolding extname_def len step Let_def using stem by simp
  then show ?thesis unfolding sl .
qed

lemma classify_dot: "classify [] = Unsupported" "classify ''.'' = Unsupported"
  by (simp_all add: classify_table)

text \<open>
  Claim C4, as amended. Classification is a total, deterministic function of the
  lower-cased extension that \<^verbatim>\<open>path.extname\<close> yields: the table below gives the category
  of every extension, with Unsupported for whatever is not listed, the empty extension
  included. It is case-insensitive: two filenames that differ in case only are classified
  alike. For a filename without path separators that has at least one character before
  its final dot and at least one after it, the extension is the part from the final dot
  on. A filename whose final dot is its first character (such as \<^verbatim>\<open>.txt\<close>) has the empty
  extension, and it, a filename that ends in its final dot, and a filename without a dot
  are all Unsupported. The handler's strategy chain dispatches on this category, and the
  support check rejects exactly the extensions classified Unsupported.
\<close>

theorem classification_by_extension:
  "classify (fileExt_of f) =
     (if fileExt_of f \<in> {''.txt'', ''.log'', ''.json''} then Text
      else if fileExt_of f \<in> {''.jpg'', ''.jpeg'', ''.png'', ''.webp''} then ImageCat
      else if fileExt_of f \<in> {''.pdf''} then PDF
      else if fileExt_of f \<in> {''.doc'', ''.docx''} then Document
      else if fileExt_of f \<in> {''.zip'', ''.gz'', ''.rar'', ''.7z''} then Archive
      else Unsupported) \<and>
   (toLowerCase (originalname f) = toLowerCase (originalname g) \<longrightarrow>
      classify (fileExt_of f) = classify (fileExt_of g)) \<and>
   (\<forall>b x. originalname f = b @ ''.'' @ x \<longrightarrow> b \<noteq> [] \<longrightarrow> CHR ''/'' \<notin> set b \<longrightarrow>
      x \<noteq> [] \<longrightarrow> CHR ''.'' \<notin> set x \<longrightarrow> CHR ''/'' \<notin> set x \<longrightarrow>
      fileExt_of f = ''.'' @ toLowerCase x) \<and>
   (\<forall>x. originalname f = ''.'' @ x \<longrightarrow> CHR ''.'' \<notin> set x \<longrightarrow> CHR ''/'' \<notin> set x \<longrightarrow>
      fileExt_of f = [] \<and> classify (fileExt_of f) = Unsupported) \<and>
   (\<forall>b. originalname f = b @ ''.'' \<longrightarrow> CHR ''/'' \<notin> set b \<longrightarrow>
      classify (fileExt_of f) = Unsupported) \<and>
   (CHR ''.'' \<notin> set (originalname f) \<longrightarrow>
      fileExt_of f = [] \<and> classify (fileExt_of f) = Unsupported) \<and>
   (isSupported (fileExt_of f) \<longleftrightarrow> classify (fileExt_of f) \<noteq> Unsupported) \<and>
   strategy e f s =
     (case classify (fileExt_of f) of
        Text \<Rightarrow> text_branch e f s
      | ImageCat \<Rightarrow> image_branch e f s
      | PDF \<Rightarrow> pdf_branch e f s
      | Document \<Rightarrow> zip_branch e f s
      | Archive \<Rightarrow> zip_branch e f s
      | Unsupported \<Rightarrow> (Inr (Inr None), s))"
proof (intro conjI allI impI)
  show "classify (fileExt_of f) =
     (if fileExt_of f \<in> {''.txt'', ''.log'', ''.json''} then Text
      else if fileExt_of f \<in> {''.jpg'', ''.jpeg'', ''.png'', ''.webp''} then ImageCat
      else if fileExt_of f \<in> {''.pdf''} then PDF
      else if fileExt_of f \<in> {''.doc'', ''.docx''} then Document
      else if fileExt_of f \<in> {''.zip'', ''.gz'', ''.rar'', ''.7z''} then Archive
      else Unsupported)"
    by (rule classify_table)
next
  assume "toLowerCase (originalname f) = toLowerCase (originalname g)"
  then have "extname (toLowerCase (originalname f)) = extname (toLowerCase (originalname g))"
    by simp
  then have "fileExt_of f = fileExt_of g"
    by (simp add: fileExt_of_def extname_lower)
  then show "classify (fileExt_of f) = classify (fileExt_of g)" by simp
next
  fix b x
  assume "originalname f = b @ ''.'' @ x" "b \<noteq> []" "CHR ''/'' \<notin> set b"
    "x \<noteq> []" "CHR ''.'' \<notin> set x" "CHR ''/'' \<notin> set x"
  then have "extname (originalname f) = ''.'' @ x"
    using extname_final_dot[of b x] by simp
  then show "fileExt_of f = ''.'' @ toLowerCase x"
    by (simp add: fileExt_of_def toLowerCase_def lower_char_def)
next
  fix x
  assume "originalname f = ''.'' @ x" "CHR ''.'' \<notin> set x" "CHR ''/'' \<notin> set x"
  then have "extname (originalname f) = []"
    using extname_leading_dot[of x] by simp
  then show "fileExt_of f = []"
    by (simp add: fileExt_of_def toLowerCase_def)
next
  fix x
  assume "originalname f = ''.'' @ x" "CHR ''.'' \<notin> set x" "CHR ''/'' \<notin> set x"
  then have "extname (originalname f) = []"
    using extname_leading_dot[of x] by simp
  then have "fileExt_of f = []"
    by (simp add: fileExt_of_def toLowerCase_def)
  then show "classify (fileExt_of f) = Unsupported"
    by (simp add: classify_dot)
next
  fix b
  assume "originalname f = b @ ''.''" "CHR ''/'' \<notin> set b"
  then have "extname (originalname f) = [] \<or> extname (originalname f) = ''.''"
    using extname_trailing_dot[of b] by simp
  then have "fileExt_of f = [] \<or> fileExt_of f = ''.''"
    by (auto simp add: fileExt_of_def toLowerCase_def lower_char_def)
  then show "classify (fileExt_of f) = Unsupported"
    by (auto simp add: classify_dot)
next
  assume "CHR ''.'' \<notin> set (originalname f)"
  then show "fileExt_of f = []"
    by (simp add: fileExt_of_def extname_no_dot toLowerCase_def)
next
  assume "CHR ''.'' \<notin> set (originalname f)"
  then have "fileExt_of f = []"
    by (simp add: fileExt_of_def extname_no_dot toLowerCase_def)
  then show "classify (fileExt_of f) = Unsupported"
    by (simp add: classify_dot)
next
  show "isSupported (fileExt_of f) \<longleftrightarrow> classify (fileExt_of f) \<noteq> Unsupported"
    by (rule isSupported_classify)
next
  show "strategy e f s =
     (case classify (fileExt_of f) of
        Text \<Rightarrow> text_branch e f s
      | ImageCat \<Rightarrow> image_branch e f s
      | PDF \<Rightarrow> pdf_branch e f s
      | Document \<Rightarrow> zip_branch e f s
      | Archive \<Rightarrow> zip_branch e f s
      | Unsupported \<Rightarrow> (Inr (Inr None), s))"
    by (rule strategy_classify)
qed

text \<open>
  \<^verbatim>\<open>IMG.PNG\<close> and \<^verbatim>\<open>img.png\<close> are images; \<^verbatim>\<open>.pdf\<close>, \<^verbatim>\<open>notes.\<close> and \<^verbatim>\<open>Makefile\<close> are
  Unsupported.
\<close>

theorem classification_by_extension_witness:
  "toLowerCase (originalname loud_image) = toLowerCase (originalname soft_image) \<and>
   classify (fileExt_of loud_image) = classify (fileExt_of soft_image) \<and>
   classify (fileExt_of loud_image) = ImageCat \<and>
   originalname loud_image = ''IMG'' @ ''.'' @ ''PNG'' \<and>
   fileExt_of loud_image = ''.png'' \<and>
   originalname hidden_pdf = ''.'' @ ''pdf'' \<and>
   fileExt_of hidden_pdf = [] \<and>
   classify (fileExt_of hidden_pdf) = Unsupported \<and>
   originalname trailing_dot_upload = ''notes'' @ ''.'' \<and>
   classify (fileExt_of trailing_dot_upload) = Unsupported \<and>
   CHR ''.'' \<notin> set (originalname makefile_upload) \<and>
   fileExt_of makefile_upload = [] \<and>
   classify (fileExt_of makefile_upload) = Unsupported"
proof -
  have a: "toLowerCase (originalname loud_image) = toLowerCase (originalname soft_image)"
    by code_simp
  have b: "originalname loud_image = ''IMG'' @ ''.'' @ ''PNG''"
    by (simp add: loud_image_def)
  have c: "CHR ''.'' \<notin> set (originalname makefile_upload)"
    by (simp add: makefile_upload_def)
  have d: "''.'' @ toLowerCase ''PNG'' = ''.png''" by code_simp
  have h: "originalname hidden_pdf = ''.'' @ ''pdf''"
    by (simp add: hidden_pdf_def)
  have t: "originalname trailing_dot_upload = ''notes'' @ ''.''"
    by (simp add: trailing_dot_upload_def)
  have 1: "classify (fileExt_of loud_image) = classify (fileExt_of soft_image)"
    using classification_by_extension[of loud_image soft_image] a by blast
  have 2: "fileExt_of loud_image = ''.'' @ toLowerCase ''PNG''"
    using classification_by_extension[of loud_image] b by simp
  have 3: "fileExt_of makefile_upload = []"
    using classification_by_extension[of makefile_upload] c by blast
  have 4: "classify (fileExt_of makefile_upload) = Unsupported"
    using classification_by_extension[of makefile_upload] c by blast
  have 5: "fileExt_of loud_image = ''.png''"
    using 2 d by simp
  have 6: "classify (fileExt_of loud_image) = ImageCat"
    using classification_by_extension[of loud_image] 5 by simp
  have h1: "CHR ''.'' \<notin> set ''pdf''" by simp
  have h2: "CHR ''/'' \<notin> set ''pdf''" by simp
  have t1: "CHR ''/'' \<notin> set ''notes''" by simp
  have 7: "fileExt_of hidden_pdf = []"
    using classification_by_extension[of hidden_pdf] h h1 h2 by blast
  have 8: "classify (fileExt_of hidden_pdf) = Unsupported"
    using classification_by_extension[of hidden_pdf] h h1 h2 by blast
  have 9: "classify (fileExt_of trailing_dot_upload) = Unsupported"
    using classification_by_extension[of trailing_dot_upload] t t1 by blast
  show ?thesis by (intro conjI a 1 6 b 5 h 7 8 t 9 c 3 4)
qed

text \<open>
  The claim as written classifies by the extension after the final dot, which for the
  filename \<^verbatim>\<open>.pdf\<close> is \<^verbatim>\<open>.pdf\<close>, category PDF. \<^verbatim>\<open>path.extname\<close> gives that filename the
  empty extension: it is Unsupported and the upload is answered with 400.
\<close>

theorem dot_pdf_is_unsupported:
  "originalname hidden_pdf = ''.pdf'' \<and>
   fileExt_of hidden_pdf = [] \<and>
   classify (fileExt_of hidden_pdf) = Unsupported \<and>
   fst (handler quiet_env \<lparr>req_file = Some hidden_pdf\<rparr> hidden_pdf_disk) =
     Json 400 ''Unsupported file type'' None"
  by code_simp

section \<open>Cleanup: \<^verbatim>\<open>safeUnlink\<close>\<close>

text \<open>
  Claim C8. Deleting a file of the Storage Area never propagates an error and is
  idempotent: \<^verbatim>\<open>safeUnlink\<close> always returns normally; on a path that is already absent
  it changes nothing and logs nothing (only the call itself is recorded); calling it a
  second time leaves the disk as the first call left it; and when the deletion fails for
  any reason other than \<^verbatim>\<open>ENOENT\<close> the failure is written to the console and swallowed.
\<close>

theorem safeUnlink_swallows:
  "fst (safeUnlink e p s) = Inr () \<and>
   (files s p = None \<longrightarrow> snd (safeUnlink e p s) = emit (Unlink p) s) \<and>
   files (snd (safeUnlink e p (snd (safeUnlink e p s)))) = files (snd (safeUnlink e p s)) \<and>
   (\<forall>b c d. files s p = Some b \<longrightarrow> unlink_fault e p = Some (c, d) \<longrightarrow> c \<noteq> ''ENOENT'' \<longrightarrow>
      snd (safeUnlink e p s) =
        emit (ConsoleError (''Error deleting file: '' @ p) (fs_error c d ''unlink'' p))
          (emit (Unlink p) s))"
proof (intro conjI allI impI)
  show "fst (safeUnlink e p s) = Inr ()" by simp
next
  assume "files s p = None"
  then show "snd (safeUnlink e p s) = emit (Unlink p) s"
    by (simp add: safeUnlink_def fs_unlink_def Let_def enoent_def)
next
  show "files (snd (safeUnlink e p (snd (safeUnlink e p s)))) = files (snd (safeUnlink e p s))"
    by (auto simp add: safeUnlink_files)
next
  fix b c d
  assume "files s p = Some b" "unlink_fault e p = Some (c, d)" "c \<noteq> ''ENOENT''"
  then show "snd (safeUnlink e p s) =
        emit (ConsoleError (''Error deleting file: '' @ p) (fs_error c d ''unlink'' p))
          (emit (Unlink p) s)"
    by (simp add: safeUnlink_def fs_unlink_def Let_def)
qed

text \<open>
  A path that is not on the disk, and a file the operating system refuses to remove.
\<close>

theorem safeUnlink_swallows_witness:
  "files notes_disk ''/app/uploads/gone'' = None \<and>
   snd (safeUnlink quiet_env ''/app/uploads/gone'' notes_disk) =
     emit (Unlink ''/app/uploads/gone'') notes_disk \<and>
   files notes_disk (path notes_upload) = Some ''hello'' \<and>
   unlink_fault undeletable_env (path notes_upload) = Some (''EPERM'', ''operation not permitted'') \<and>
   snd (safeUnlink undeletable_env (path notes_upload) notes_disk) =
     emit (ConsoleError (''Error deleting file: '' @ path notes_upload)
             (fs_error ''EPERM'' ''operation not permitted'' ''unlink'' (path notes_upload)))
       (emit (Unlink (path notes_upload)) notes_disk)"
proof -
  have a: "files notes_disk ''/app/uploads/gone'' = None"
    by (simp add: notes_disk_def disk_def)
  have b: "files notes_disk (path notes_upload) = Some ''hello''"
    by (simp add: notes_disk_def disk_def notes_upload_def)
  have c: "unlink_fault undeletable_env (path notes_upload) =
      Some (''EPERM'', ''operation not permitted'')"
    by (simp add: undeletable_env_def)
  have d: "''EPERM'' \<noteq> ''ENOENT''" by simp
  have 1: "snd (safeUnlink quiet_env ''/app/uploads/gone'' notes_disk) =
      emit (Unlink ''/app/uploads/gone'') notes_disk"
    using safeUnlink_swallows[of quiet_env "''/app/uploads/gone''" notes_disk] a by blast
  have 2: "snd (safeUnlink undeletable_env (path notes_upload) notes_disk) =
     emit (ConsoleError (''Error deleting file: '' @ path notes_upload)
             (fs_error ''EPERM'' ''operation not permitted'' ''unlink'' (path notes_upload)))
       (emit (Unlink (path notes_upload)) notes_disk)"
    using safeUnlink_swallows[of undeletable_env "path notes_upload" notes_disk] b c d by blast
  show ?thesis by (intro conjI a 1 b c 2)
qed

section \<open>PDF validation\<close>

text \<open>
  Claim C10. \<^verbatim>\<open>validatePDF\<close> never raises: it always returns a boolean, and when reading
  the file fails it returns false. An upload with extension \<^verbatim>\<open>.pdf\<close> whose source cannot
  be read is therefore answered with 400 "Invalid PDF file", not with a 500.
\<close>

theorem validatePDF_never_raises:
  "(\<exists>b. fst (validatePDF e p s) = Inr b) \<and>
   (\<forall>err. fst (fs_readFile e p s) = Inl err \<longrightarrow> fst (validatePDF e p s) = Inr False) \<and>
   (\<forall>f err. fileExt_of f = ''.pdf'' \<longrightarrow> fst (fs_readFile e (path f) s) = Inl err \<longrightarrow>
      fst (handler e \<lparr>req_file = Some f\<rparr> s) =
        Json 400 ''Invalid PDF file'' (Some ''The uploaded file is not a valid PDF document''))"
proof (intro conjI allI impI)
  show "\<exists>b. fst (validatePDF e p s) = Inr b" by (simp add: validatePDF_fst)
next
  fix err assume "fst (fs_readFile e p s) = Inl err"
  then show "fst (validatePDF e p s) = Inr False" by (simp add: validatePDF_fst)
next
  fix f err
  assume ext: "fileExt_of f = ''.pdf''" and rd: "fst (fs_readFile e (path f) s) = Inl err"
  from rd have inv: "(case fst (fs_readFile e (path f) s) of
        Inl err \<Rightarrow> False
      | Inr c \<Rightarrow> startsWith c ''%PDF-'') = False"
    by simp
  show "fst (handler e \<lparr>req_file = Some f\<rparr> s) =
        Json 400 ''Invalid PDF file'' (Some ''The uploaded file is not a valid PDF document'')"
    by (simp add: handler_invalid_pdf[OF ext inv] invalid_pdf_def)
qed

text \<open>A well-formed PDF on a disk that refuses the read.\<close>

theorem validatePDF_never_raises_witness:
  "fileExt_of true_pdf_upload = ''.pdf'' \<and>
   fst (fs_readFile unreadable_env (path true_pdf_upload) true_pdf_disk) =
     Inl (fs_error ''EACCES'' ''permission denied'' ''open'' (path true_pdf_upload)) \<and>
   fst (validatePDF unreadable_env (path true_pdf_upload) true_pdf_disk) = Inr False \<and>
   fst (handler unreadable_env \<lparr>req_file = Some true_pdf_upload\<rparr> true_pdf_disk) =
     Json 400 ''Invalid PDF file'' (Some ''The uploaded file is not a valid PDF document'')"
proof -
  have a: "fileExt_of true_pdf_upload = ''.pdf''" by code_simp
  have b: "fst (fs_readFile unreadable_env (path true_pdf_upload) true_pdf_disk) =
     Inl (fs_error ''EACCES'' ''permission denied'' ''open'' (path true_pdf_upload))"
    by code_simp
  have c: "fst (validatePDF unreadable_env (path true_pdf_upload) true_pdf_disk) = Inr False"
    using validatePDF_never_raises[of unreadable_env "path true_pdf_upload" true_pdf_disk] b
    by blast
  have d: "fst (handler unreadable_env \<lparr>req_file = Some true_pdf_upload\<rparr> true_pdf_disk) =
     Json 400 ''Invalid PDF file'' (Some ''The uploaded file is not a valid PDF document'')"
    using validatePDF_never_raises[of unreadable_env "path true_pdf_upload" true_pdf_disk] a b
    by blast
  show ?thesis by (intro conjI a b c d)
qed

text \<open>
  Claim C5. An upload classified as PDF whose content does not begin with \<^verbatim>\<open>%PDF-\<close> is
  answered with 400 "Invalid PDF file"; the only calls the handler makes are the read of
  the source and its deletion, so parsing and re-serialising are never reached; and the
  source is gone afterwards unless the operating system refuses the deletion.
\<close>

theorem invalid_pdf_rejected:
  assumes "classify (fileExt_of f) = PDF"
    and "files s (path f) = Some c"
    and "\<not> startsWith c ''%PDF-''"
  shows "fst (handler e \<lparr>req_file = Some f\<rparr> s) =
           Json 400 ''Invalid PDF file'' (Some ''The uploaded file is not a valid PDF document'') \<and>
         operations (since s (snd (handler e \<lparr>req_file = Some f\<rparr> s))) =
           [ReadFile (path f), Unlink (path f)] \<and>
         (unlink_fault e (path f) = None \<longrightarrow>
            files (snd (handler e \<lparr>req_file = Some f\<rparr> s)) (path f) = None)"
proof -
  have ext: "fileExt_of f = ''.pdf''"
    using assms(1) by (simp add: classify_pdf)
  have inv: "(case fst (fs_readFile e (path f) s) of
        Inl err \<Rightarrow> False
      | Inr c \<Rightarrow> startsWith c ''%PDF-'') = False"
    using assms(2,3) by (simp add: fs_readFile_def Let_def split: option.splits prod.splits)
  let ?s' = "snd (safeUnlink e (path f) (emit (ReadFile (path f)) s))"
  have h: "handler e \<lparr>req_file = Some f\<rparr> s = (invalid_pdf, ?s')"
    by (rule handler_invalid_pdf[OF ext inv])
  have ev: "events ?s' = events s @
      (ReadFile (path f) # Unlink (path f) # unlink_log e (path f) (emit (ReadFile (path f)) s))"
    by (simp add: safeUnlink_events emit_def)
  have ops: "operations (since s ?s') = [ReadFile (path f), Unlink (path f)]"
    using since_append[OF ev] by simp
  have fl: "unlink_fault e (path f) = None \<Longrightarrow> files ?s' (path f) = None"
    by (simp add: safeUnlink_files)
  show ?thesis using ops fl by (simp add: h invalid_pdf_def)
qed

text \<open>A GIF uploaded as \<^verbatim>\<open>Scan.PDF\<close>.\<close>

theorem invalid_pdf_rejected_witness:
  "classify (fileExt_of fake_pdf_upload) = PDF \<and>
   files fake_pdf_disk (path fake_pdf_upload) = Some ''GIF89a....'' \<and>
   \<not> startsWith ''GIF89a....'' ''%PDF-'' \<and>
   fst (handler quiet_env \<lparr>req_file = Some fake_pdf_upload\<rparr> fake_pdf_disk) =
     Json 400 ''Invalid PDF file'' (Some ''The uploaded file is not a valid PDF document'') \<and>
   operations (since fake_pdf_disk
       (snd (handler quiet_env \<lparr>req_file = Some fake_pdf_upload\<rparr> fake_pdf_disk))) =
     [ReadFile (path fake_pdf_upload), Unlink (path fake_pdf_upload)] \<and>
   files (snd (handler quiet_env \<lparr>req_file = Some fake_pdf_upload\<rparr> fake_pdf_disk))
     (path fake_pdf_upload) = None"
proof -
  have a: "classify (fileExt_of fake_pdf_upload) = PDF" by code_simp
  have b: "files fake_pdf_disk (path fake_pdf_upload) = Some ''GIF89a....''" by code_simp
  have c: "\<not> startsWith ''GIF89a....'' ''%PDF-''" by code_simp
  have d: "unlink_fault quiet_env (path fake_pdf_upload) = None"
    by (simp add: quiet_env_def)
  show ?thesis
    using invalid_pdf_rejected[OF a b c, of quiet_env] a b c d by blast
qed

section \<open>The no-file check\<close>

text \<open>
  Claim C7, as amended. A request whose upload is missing is answered with 400
  "No file uploaded" before anything else happens (the state is untouched), and no other
  request gets that answer: the check looks at the presence of \<^verbatim>\<open>req.file\<close> only, so an
  uploaded file of zero bytes goes on to classification like any other.
\<close>

theorem no_file_iff_missing:
  "(fst (handler e req s) = Json 400 ''No file uploaded'' None \<longleftrightarrow> req_file req = None) \<and>
   (req_file req = None \<longrightarrow> snd (handler e req s) = s)"
proof -
  have a: "req_file req = None \<Longrightarrow> handler e req s = (Json 400 ''No file uploaded'' None, s)"
    by (simp add: handler_def)
  have b: "fst (handler e req s) \<noteq> Json 400 ''No file uploaded'' None"
    if "req_file req = Some f" for f
  proof -
    have "req = \<lparr>req_file = Some f\<rparr>" using that by (cases req) simp
    then show ?thesis
      using handler_Some_response[of e f s "fst (handler e req s)"]
      by (auto simp add: invalid_pdf_def)
  qed
  show ?thesis using a b by (cases "req_file req") auto
qed

theorem no_file_iff_missing_witness:
  "req_file \<lparr>req_file = None\<rparr> = None \<and>
   fst (handler quiet_env \<lparr>req_file = None\<rparr> notes_disk) = Json 400 ''No file uploaded'' None \<and>
   snd (handler quiet_env \<lparr>req_file = None\<rparr> notes_disk) = notes_disk"
  using no_file_iff_missing[of quiet_env "\<lparr>req_file = None\<rparr>" notes_disk] by simp

text \<open>
  The claim as written also rejects an empty upload. An upload of zero bytes named
  \<^verbatim>\<open>empty.txt\<close> is gzipped and sent back.
\<close>

theorem empty_upload_is_compressed:
  "size_bytes empty_upload = 0 \<and>
   files empty_disk (path empty_upload) = Some [] \<and>
   fst (handler quiet_env \<lparr>req_file = Some empty_upload\<rparr> empty_disk) =
     Download ''compressed-empty.txt'' (Sent ''gz:'')"
  by code_simp

section \<open>The error response\<close>

text \<open>
  Claim C9, as amended. A request is answered with status 500 exactly when the \<^verbatim>\<open>try\<close>
  block throws, and the \<^verbatim>\<open>details\<close> field is then the thrown error's message, unchanged:
  it holds a filesystem path whenever that message does.
\<close>

theorem details_is_error_message:
  "(\<forall>f err s1. req_file req = Some f \<longrightarrow> try_block e f s = (Inl err, s1) \<longrightarrow>
       fst (handler e req s) = Json 500 ''Compression failed'' (Some (message err))) \<and>
   (\<forall>m d. fst (handler e req s) = Json 500 m d \<longrightarrow>
       (\<exists>f err s1. req_file req = Some f \<and> try_block e f s = (Inl err, s1) \<and>
          m = ''Compression failed'' \<and> d = Some (message err)))"
proof (intro conjI allI impI)
  fix f err s1
  assume "req_file req = Some f" "try_block e f s = (Inl err, s1)"
  moreover from this have "req = \<lparr>req_file = Some f\<rparr>" by (cases req) simp
  ultimately show "fst (handler e req s) = Json 500 ''Compression failed'' (Some (message err))"
    using handler_catch[of e f s err s1] by simp
next
  fix m d
  assume a: "fst (handler e req s) = Json 500 m d"
  show "\<exists>f err s1. req_file req = Some f \<and> try_block e f s = (Inl err, s1) \<and>
          m = ''Compression failed'' \<and> d = Some (message err)"
  proof (cases "req_file req")
    case None
    with a show ?thesis by (simp add: handler_def)
  next
    case (Some f)
    then have "req = \<lparr>req_file = Some f\<rparr>" by (cases req) simp
    with a Some show ?thesis
      using handler_Some_response[of e f s "Json 500 m d"]
      by (auto simp add: invalid_pdf_def)
  qed
qed

text \<open>A text upload while the disk is full.\<close>

theorem details_is_error_message_witness:
  "req_file \<lparr>req_file = Some notes_upload\<rparr> = Some notes_upload \<and>
   fst (try_block full_disk_env notes_upload notes_disk) =
     Inl \<lparr>code = ''ENOSPC'', message = ''ENOSPC: no space left on device, write''\<rparr> \<and>
   fst (handler full_disk_env \<lparr>req_file = Some notes_upload\<rparr> notes_disk) =
     Json 500 ''Compression failed'' (Some ''ENOSPC: no space left on device, write'')"
proof -
  let ?err = "\<lparr>code = ''ENOSPC'', message = ''ENOSPC: no space left on device, write''\<rparr>"
  have a: "fst (try_block full_disk_env notes_upload notes_disk) = Inl ?err"
    by code_simp
  have b: "try_block full_disk_env notes_upload notes_disk =
      (Inl ?err, snd (try_block full_disk_env notes_upload notes_disk))"
    by (rule pair_of_fst[OF a])
  have c: "fst (handler full_disk_env \<lparr>req_file = Some notes_upload\<rparr> notes_disk) =
      Json 500 ''Compression failed'' (Some (message ?err))"
    using details_is_error_message[of "\<lparr>req_file = Some notes_upload\<rparr>" full_disk_env notes_disk] b
    by (metis request.select_convs(1))
  show ?thesis using a c by simp
qed

text \<open>
  The claim as written keeps paths out of \<^verbatim>\<open>details\<close>. When a directory stands where the
  artifact of \<^verbatim>\<open>notes.txt\<close> is to be written, the write stream's error goes to the caller
  with the artifact's path in \<^verbatim>\<open>details\<close>.
\<close>

theorem details_leaks_artifact_path:
  "fst (handler blocked_artifact_env \<lparr>req_file = Some notes_upload\<rparr> notes_disk) =
     Json 500 ''Compression failed''
       (Some (''EISDIR: illegal operation on a directory, open '' @ [CHR 0x27] @
              ''/app/uploads/notes.gz'' @ [CHR 0x27]))"
  by code_simp

section \<open>The success path\<close>

text \<open>
  Claim C2. When the strategy has produced the artifact, the handler makes exactly three
  calls, in this order, however the transfer ends (completed, failed, client gone):
  it unlinks the uploaded source, it starts the download of the artifact under the name
  \<^verbatim>\<open>compressed-<originalname>\<close>, and after the transfer it unlinks the artifact, once.
  The download runs on the disk as the source's deletion left it. Afterwards neither
  file is on the disk, unless the operating system refuses the deletion.
\<close>

theorem source_then_send_then_artifact:
  assumes "strategy e f s = (Inr (Inr (Some p)), s1)"
  shows "fst (handler e \<lparr>req_file = Some f\<rparr> s) =
           Download (''compressed-'' @ originalname f)
             (fst (res_download e p (''compressed-'' @ originalname f)
                     (snd (safeUnlink e (path f) s1)))) \<and>
         operations (since s1 (snd (handler e \<lparr>req_file = Some f\<rparr> s))) =
           [Unlink (path f), SendFile p (''compressed-'' @ originalname f), Unlink p] \<and>
         (unlink_fault e (path f) = None \<longrightarrow>
            files (snd (safeUnlink e (path f) s1)) (path f) = None \<and>
            files (snd (handler e \<lparr>req_file = Some f\<rparr> s)) (path f) = None) \<and>
         (unlink_fault e p = None \<longrightarrow>
            files (snd (handler e \<lparr>req_file = Some f\<rparr> s)) p = None)"
proof -
  let ?n = "''compressed-'' @ originalname f"
  let ?s2 = "snd (safeUnlink e (path f) s1)"
  let ?s3 = "snd (res_download e p ?n ?s2)"
  let ?s4 = "snd (safeUnlink e p ?s3)"
  have h: "handler e \<lparr>req_file = Some f\<rparr> s = (Download ?n (fst (res_download e p ?n ?s2)), ?s4)"
    by (rule handler_success[OF assms])
  have ev: "events ?s4 = events s1 @
      (Unlink (path f) # unlink_log e (path f) s1 @ SendFile p ?n # Unlink p # unlink_log e p ?s3)"
    by (simp add: safeUnlink_events res_download_events)
  have ops: "operations (since s1 ?s4) = [Unlink (path f), SendFile p ?n, Unlink p]"
    using since_append[OF ev] by simp
  have f1: "unlink_fault e (path f) = None \<Longrightarrow> files ?s2 (path f) = None"
    by (simp add: safeUnlink_files)
  have f2: "unlink_fault e (path f) = None \<Longrightarrow> files ?s4 (path f) = None"
    by (simp add: safeUnlink_files res_download_files)
  have f3: "unlink_fault e p = None \<Longrightarrow> files ?s4 p = None"
    by (simp add: safeUnlink_files)
  show ?thesis using ops f1 f2 f3 by (simp add: h)
qed

text \<open>
  \<^verbatim>\<open>notes.txt\<close> is sent back three times: the transfer completes, the transfer fails, the
  client hangs up.
\<close>

theorem source_then_send_then_artifact_witness:
  "fst (strategy hangup_env notes_upload notes_disk) = Inr (Inr (Some ''/app/uploads/notes.gz'')) \<and>
   fst (handler quiet_env \<lparr>req_file = Some notes_upload\<rparr> notes_disk) =
     Download ''compressed-notes.txt'' (Sent ''gz:hello'') \<and>
   fst (handler send_error_env \<lparr>req_file = Some notes_upload\<rparr> notes_disk) =
     Download ''compressed-notes.txt'' TransferError \<and>
   fst (handler hangup_env \<lparr>req_file = Some notes_upload\<rparr> notes_disk) =
     Download ''compressed-notes.txt'' ClientDisconnected \<and>
   operations (since (snd (strategy hangup_env notes_upload notes_disk))
       (snd (handler hangup_env \<lparr>req_file = Some notes_upload\<rparr> notes_disk))) =
     [Unlink ''/app/uploads/3f2a91c0'',
      SendFile ''/app/uploads/notes.gz'' ''compressed-notes.txt'',
      Unlink ''/app/uploads/notes.gz''] \<and>
   files (snd (handler hangup_env \<lparr>req_file = Some notes_upload\<rparr> notes_disk))
     ''/app/uploads/3f2a91c0'' = None \<and>
   files (snd (handler quiet_env \<lparr>req_file = Some notes_upload\<rparr> notes_disk))
     ''/app/uploads/notes.gz'' = None \<and>
   files (snd (handler send_error_env \<lparr>req_file = Some notes_upload\<rparr> notes_disk))
     ''/app/uploads/notes.gz'' = None \<and>
   files (snd (handler hangup_env \<lparr>req_file = Some notes_upload\<rparr> notes_disk))
     ''/app/uploads/notes.gz'' = None"
proof -
  let ?p = "''/app/uploads/notes.gz''"
  let ?src = "''/app/uploads/3f2a91c0''"
  let ?n = "''compressed-notes.txt''"
  let ?req = "\<lparr>req_file = Some notes_upload\<rparr>"
  have nm: "''compressed-'' @ originalname notes_upload = ?n"
    by (simp add: notes_upload_def)
  have pf: "path notes_upload = ?src"
    by (simp add: notes_upload_def)
  have run:
    "fst (handler E ?req notes_disk) =
       Download ?n (fst (res_download E ?p ?n
         (snd (safeUnlink E ?src (snd (strategy E notes_upload notes_disk)))))) \<and>
     operations (since (snd (strategy E notes_upload notes_disk))
         (snd (handler E ?req notes_disk))) =
       [Unlink ?src, SendFile ?p ?n, Unlink ?p] \<and>
     files (snd (handler E ?req notes_disk)) ?src = None \<and>
     files (snd (handler E ?req notes_disk)) ?p = None"
    if "fst (strategy E notes_upload notes_disk) = Inr (Inr (Some ?p))"
      and "\<And>q. unlink_fault E q = None" for E
    using source_then_send_then_artifact[OF pair_of_fst[OF that(1)]] that(2)
    unfolding nm pf by simp
  have q1: "fst (strategy quiet_env notes_upload notes_disk) = Inr (Inr (Some ?p))"
    by code_simp
  have q2: "unlink_fault quiet_env q = None" for q
    by (simp add: quiet_env_def)
  have q3: "fst (res_download quiet_env ?p ?n
      (snd (safeUnlink quiet_env ?src (snd (strategy quiet_env notes_upload notes_disk))))) =
      Sent ''gz:hello''"
    by code_simp
  have e1: "fst (strategy send_error_env notes_upload notes_disk) = Inr (Inr (Some ?p))"
    by code_simp
  have e2: "unlink_fault send_error_env q = None" for q
    by (simp add: send_error_env_def quiet_env_def)
  have e3: "fst (res_download send_error_env ?p ?n
      (snd (safeUnlink send_error_env ?src
         (snd (strategy send_error_env notes_upload notes_disk))))) = TransferError"
    by code_simp
  have h1: "fst (strategy hangup_env notes_upload notes_disk) = Inr (Inr (Some ?p))"
    by code_simp
  have h2: "unlink_fault hangup_env q = None" for q
    by (simp add: hangup_env_def quiet_env_def)
  have h3: "fst (res_download hangup_env ?p ?n
      (snd (safeUnlink hangup_env ?src
         (snd (strategy hangup_env notes_upload notes_disk))))) = ClientDisconnected"
    by code_simp
  show ?thesis
    using run[OF q1 q2] run[OF e1 e2] run[OF h1 h2] h1 q3 e3 h3 by simp
qed

section \<open>Two requests with the same original filename\<close>

text \<open>
  Claim C3, as amended. For every pair of concurrent requests uploading files with the
  same original filename: whenever the strategies of both leave an artifact path, it is
  the same path for both, the one computed from the original filename alone, whatever
  temporary names the sources were stored under and whatever is on the disk when each
  strategy runs. A request's strategy, and its handler as a whole, run from any state of
  the disk, leave the other request's source as they found it, provided the two
  temporary source names differ and the other's source is not that artifact path.
\<close>

theorem same_originalname_same_artifact:
  "(originalname f = originalname g \<longrightarrow>
      fst (strategy e f s) = Inr (Inr p) \<longrightarrow> fst (strategy e g t) = Inr (Inr q) \<longrightarrow>
      p = q \<and> p = artifact_path e (originalname f)) \<and>
   (path g \<noteq> path f \<longrightarrow> Some (path g) \<noteq> artifact_path e (originalname f) \<longrightarrow>
      files (snd (strategy e f s)) (path g) = files s (path g) \<and>
      files (snd (handler e \<lparr>req_file = Some f\<rparr> s)) (path g) = files s (path g))"
proof (intro conjI impI)
  assume "originalname f = originalname g" "fst (strategy e f s) = Inr (Inr p)"
    "fst (strategy e g t) = Inr (Inr q)"
  then show "p = q"
    using strategy_path[of e f s p] strategy_path[of e g t q] by simp
next
  assume "fst (strategy e f s) = Inr (Inr p)"
  then show "p = artifact_path e (originalname f)" by (rule strategy_path)
next
  assume "path g \<noteq> path f" "Some (path g) \<noteq> artifact_path e (originalname f)"
  then show "files (snd (strategy e f s)) (path g) = files s (path g)"
    by (rule strategy_frame)
next
  assume "path g \<noteq> path f" "Some (path g) \<noteq> artifact_path e (originalname f)"
  then show "files (snd (handler e \<lparr>req_file = Some f\<rparr> s)) (path g) = files s (path g)"
    by (rule handler_frame)
qed

text \<open>Two uploads named \<^verbatim>\<open>report.txt\<close>, stored under different temporary names.\<close>

theorem same_originalname_same_artifact_witness:
  "originalname first_report = originalname second_report \<and>
   path second_report \<noteq> path first_report \<and>
   fst (strategy quiet_env first_report two_reports_disk) =
     Inr (Inr (Some ''/app/uploads/report.gz'')) \<and>
   fst (strategy quiet_env second_report two_reports_disk) =
     Inr (Inr (artifact_path quiet_env ''report.txt'')) \<and>
   Some ''/app/uploads/report.gz'' = artifact_path quiet_env ''report.txt'' \<and>
   files (snd (strategy quiet_env first_report two_reports_disk)) (path second_report) =
     Some ''second'' \<and>
   files (snd (handler quiet_env \<lparr>req_file = Some first_report\<rparr> two_reports_disk))
     (path second_report) = Some ''second''"
proof -
  have a: "originalname first_report = originalname second_report"
    by (simp add: first_report_def second_report_def)
  have b: "fst (strategy quiet_env first_report two_reports_disk) =
      Inr (Inr (Some ''/app/uploads/report.gz''))"
    by code_simp
  have c: "fst (strategy quiet_env second_report two_reports_disk) =
      Inr (Inr (artifact_path quiet_env ''report.txt''))"
    by code_simp
  have d: "path second_report \<noteq> path first_report"
    by (simp add: first_report_def second_report_def)
  have n: "originalname first_report = ''report.txt''"
    by (simp add: first_report_def)
  have e: "Some (path second_report) \<noteq> artifact_path quiet_env (originalname first_report)"
    by code_simp
  have f: "files two_reports_disk (path second_report) = Some ''second''"
    by code_simp
  have 1: "Some ''/app/uploads/report.gz'' = artifact_path quiet_env ''report.txt''"
    using same_originalname_same_artifact[of first_report second_report quiet_env
        two_reports_disk "Some ''/app/uploads/report.gz''" two_reports_disk
        "artifact_path quiet_env ''report.txt''"] a b c
    by blast
  have 2: "files (snd (strategy quiet_env first_report two_reports_disk)) (path second_report) =
      Some ''second''"
    using same_originalname_same_artifact[of first_report second_report quiet_env
        two_reports_disk _ two_reports_disk] d e f
    by simp
  have 3: "files (snd (handler quiet_env \<lparr>req_file = Some first_report\<rparr> two_reports_disk))
      (path second_report) = Some ''second''"
    using same_originalname_same_artifact[of first_report second_report quiet_env
        two_reports_disk _ two_reports_disk] d e f
    by simp
  show ?thesis by (intro conjI a d b c 1 2 3)
qed

text \<open>
  The claim as written gives the two requests distinct artifact paths, so that neither
  touches the other's output and both are cleaned up independently. Two uploads named
  \<^verbatim>\<open>report.txt\<close>, stored under different temporary names, are compressed one after the
  other before either is sent: both artifacts are \<^verbatim>\<open>/app/uploads/report.gz\<close> and the second
  strategy overwrites what the first wrote. The first request then deletes its source,
  sends the second request's data and deletes the artifact; the second request deletes
  its source and finds nothing to send.
\<close>

theorem two_reports_collide:
  "originalname first_report = originalname second_report \<and>
   path first_report \<noteq> path second_report \<and>
   fst (strategy quiet_env first_report two_reports_disk) =
     Inr (Inr (Some ''/app/uploads/report.gz'')) \<and>
   files (snd (strategy quiet_env first_report two_reports_disk)) ''/app/uploads/report.gz'' =
     Some ''gz:first'' \<and>
   fst (strategy quiet_env second_report (snd (strategy quiet_env first_report two_reports_disk))) =
     Inr (Inr (Some ''/app/uploads/report.gz'')) \<and>
   files (snd (strategy quiet_env second_report
                 (snd (strategy quiet_env first_report two_reports_disk))))
     ''/app/uploads/report.gz'' = Some ''gz:second'' \<and>
   fst (res_download quiet_env ''/app/uploads/report.gz'' ''compressed-report.txt''
          (snd (safeUnlink quiet_env (path first_report)
             (snd (strategy quiet_env second_report
                (snd (strategy quiet_env first_report two_reports_disk))))))) =
     Sent ''gz:second'' \<and>
   fst (res_download quiet_env ''/app/uploads/report.gz'' ''compressed-report.txt''
          (snd (safeUnlink quiet_env (path second_report)
             (download_callback quiet_env ''/app/uploads/report.gz''
                (snd (res_download quiet_env ''/app/uploads/report.gz'' ''compressed-report.txt''
                   (snd (safeUnlink quiet_env (path first_report)
                      (snd (strategy quiet_env second_report
                         (snd (strategy quiet_env first_report two_reports_disk)))))))))))) =
     TransferError"
  by code_simp

section \<open>Two defects\<close>

text \<open>
  Claim C1. When a strategy fails, the handler should delete the uploaded source and any
  partially written artifact. The \<^verbatim>\<open>catch\<close> block deletes the source only: when the disk
  fills up while \<^verbatim>\<open>notes.txt\<close> is being gzipped, the request is answered with 500, the
  source is gone, and the partial \<^verbatim>\<open>notes.gz\<close> stays in the upload directory.
\<close>

theorem failed_strategy_leaves_partial_artifact:
  "fst (handler full_disk_env \<lparr>req_file = Some notes_upload\<rparr> notes_disk) =
     Json 500 ''Compression failed'' (Some ''ENOSPC: no space left on device, write'') \<and>
   operations (events (snd (handler full_disk_env \<lparr>req_file = Some notes_upload\<rparr> notes_disk))) =
     [GzipStream ''/app/uploads/3f2a91c0'' ''/app/uploads/notes.gz'',
      Unlink ''/app/uploads/3f2a91c0''] \<and>
   files (snd (handler full_disk_env \<lparr>req_file = Some notes_upload\<rparr> notes_disk))
     ''/app/uploads/3f2a91c0'' = None \<and>
   files (snd (handler full_disk_env \<lparr>req_file = Some notes_upload\<rparr> notes_disk))
     ''/app/uploads/notes.gz'' = Some ''gz:he''"
  by code_simp

text \<open>
  Claim C6. The artifact of a text upload should be the base name with extension
  \<^verbatim>\<open>.gz\<close>. The handler strips the lower-cased extension from the filename as the client
  wrote it, and \<^verbatim>\<open>path.basename\<close> compares case-sensitively: for \<^verbatim>\<open>REPORT.TXT\<close>, which is
  classified as text, nothing is stripped and the artifact is \<^verbatim>\<open>REPORT.TXT.gz\<close>.
\<close>

theorem uppercase_extension_is_kept:
  "classify (fileExt_of shouting_upload) = Text \<and>
   fileName_of shouting_upload = ''REPORT.TXT'' \<and>
   events (snd (handler quiet_env \<lparr>req_file = Some shouting_upload\<rparr> shouting_disk)) =
     [GzipStream ''/app/uploads/9c1d44aa'' ''/app/uploads/REPORT.TXT.gz'',
      Unlink ''/app/uploads/9c1d44aa'',
      SendFile ''/app/uploads/REPORT.TXT.gz'' ''compressed-REPORT.TXT'',
      Unlink ''/app/uploads/REPORT.TXT.gz'']"
  by code_simp

end
